theory Spec2Isabelle
  imports Main "HOL-Library.Word" "HOL-Library.Multiset" "HOL-Library.List_Lexorder"
    "HOL-Library.Product_Lexorder"
begin

section \<open>Strings, bytes and exceptions\<close>

text \<open>
  A Python \<open>str\<close> is a sequence of Unicode code points; it is modelled as a list of
  natural numbers, one per code point. \<open>str\<close> turns an ASCII literal into such a list.
  A file's raw content is a list of 8-bit words.
\<close>

type_synonym pystr = "nat list"

type_synonym byte = "8 word"

definition str :: "string \<Rightarrow> pystr" where
  "str s = map of_char s"

text \<open>
  The exceptions the scanner distinguishes: \<open>PermissionError\<close>, and every other
  \<open>Exception\<close>. Each carries the text that Python's \<open>str(e)\<close> yields.
\<close>

datatype exc = PermissionError pystr | OtherError pystr

fun str_of_exc :: "exc \<Rightarrow> pystr" where
  "str_of_exc (PermissionError m) = m"
| "str_of_exc (OtherError m) = m"

section \<open>Configuration tables (repo\_scanner.py, lines 33--66)\<close>

definition TEXT_EXTENSIONS :: "pystr set" where
  "TEXT_EXTENSIONS = str ` {
     ''.py'', ''.js'', ''.jsx'', ''.ts'', ''.tsx'', ''.html'', ''.css'', ''.scss'', ''.sass'',
     ''.json'', ''.xml'', ''.yaml'', ''.yml'', ''.txt'', ''.md'', ''.markdown'', ''.rst'',
     ''.c'', ''.cpp'', ''.h'', ''.hpp'', ''.java'', ''.go'', ''.rs'', ''.php'', ''.rb'',
     ''.sh'', ''.bash'', ''.sql'', ''.r'', ''.m'', ''.swift'', ''.kt'', ''.scala'',
     ''.vue'', ''.svelte'', ''.conf'', ''.config'', ''.ini'', ''.toml'', ''.env'',
     ''.log'', ''.csv'', ''.tsv'', ''.gitignore'', ''.dockerignore'', ''Dockerfile'',
     ''Makefile'', ''.editorconfig'', ''requirements.txt'', ''package.json''}"

definition BINARY_EXTENSIONS :: "pystr set" where
  "BINARY_EXTENSIONS = str ` {
     ''.png'', ''.jpg'', ''.jpeg'', ''.gif'', ''.bmp'', ''.ico'', ''.svg'', ''.webp'',
     ''.mp4'', ''.avi'', ''.mov'', ''.mkv'', ''.mp3'', ''.wav'', ''.flac'',
     ''.zip'', ''.tar'', ''.gz'', ''.rar'', ''.7z'', ''.bz2'',
     ''.exe'', ''.dll'', ''.so'', ''.dylib'', ''.bin'',
     ''.pdf'', ''.doc'', ''.docx'', ''.xls'', ''.xlsx'', ''.ppt'', ''.pptx'',
     ''.pyc'', ''.pyo'', ''.class'', ''.o'', ''.obj'',
     ''.db'', ''.sqlite'', ''.sqlite3''}"

definition SKIP_DIRECTORIES :: "pystr set" where
  "SKIP_DIRECTORIES = str ` {
     ''.git'', ''.svn'', ''.hg'', ''__pycache__'', ''node_modules'',
     ''.venv'', ''venv'', ''env'', ''.env'', ''virtualenv'',
     ''.idea'', ''.vscode'', ''.vs'', ''.pytest_cache'', ''.mypy_cache'',
     ''dist'', ''build'', ''.eggs'', ''*.egg-info'', ''target''}"

text \<open>
  The tree connectors: \<open>TREE_BRANCH\<close> is U+251C U+2500 U+2500 and a space,
  \<open>TREE_LAST\<close> is U+2514 U+2500 U+2500 and a space, \<open>TREE_VERTICAL\<close> is U+2502 and
  three spaces, \<open>TREE_SPACE\<close> is four spaces.
\<close>

definition TREE_BRANCH :: pystr where
  "TREE_BRANCH = [0x251C, 0x2500, 0x2500, 0x20]"

definition TREE_LAST :: pystr where
  "TREE_LAST = [0x2514, 0x2500, 0x2500, 0x20]"

definition TREE_VERTICAL :: pystr where
  "TREE_VERTICAL = [0x2502, 0x20, 0x20, 0x20]"

definition TREE_SPACE :: pystr where
  "TREE_SPACE = [0x20, 0x20, 0x20, 0x20]"

section \<open>The Sanitizer (lines 69--84)\<close>

text \<open>
  The character class of the regular expression on line 82:
  \<open>[\x00-\x08\x0B\x0C\x0E-\x1F\x7F-\x9F]\<close>.
\<close>

definition in_removed_class :: "nat \<Rightarrow> bool" where
  "in_removed_class c \<longleftrightarrow>
     c \<le> 0x08 \<or> c = 0x0B \<or> c = 0x0C \<or> (0x0E \<le> c \<and> c \<le> 0x1F) \<or> (0x7F \<le> c \<and> c \<le> 0x9F)"

text \<open>
  \<open>text.replace('\x00', '')\<close> deletes every NUL; \<open>re.sub(class, '', text)\<close> deletes every
  character of the class. An empty text is returned as it is (line 74).
\<close>

definition sanitize_xml_content :: "pystr \<Rightarrow> pystr" where
  "sanitize_xml_content text =
     (if text = [] then text
      else let text1 = removeAll 0 text;
               text2 = filter (\<lambda>c. \<not> in_removed_class c) text1
           in text2)"

text \<open>
  Unicode's control characters (general category Cc) are U+0000--U+001F and
  U+007F--U+009F; tab, line feed and carriage return are U+0009, U+000A and U+000D.
\<close>

definition is_control :: "nat \<Rightarrow> bool" where
  "is_control c \<longleftrightarrow> c \<le> 0x1F \<or> (0x7F \<le> c \<and> c \<le> 0x9F)"

definition must_remove :: "nat \<Rightarrow> bool" where
  "must_remove c \<longleftrightarrow> c = 0 \<or> (is_control c \<and> c \<noteq> 0x09 \<and> c \<noteq> 0x0A \<and> c \<noteq> 0x0D)"

section \<open>The Classifier (lines 87--112)\<close>

text \<open>
  \<open>str.lower()\<close>, code point by code point. The mapping is Python's on U+0000--U+00FF
  (A--Z, and the capital letters U+00C0--U+00DE without the multiplication sign U+00D7);
  code points above U+00FF are left as they are, so the model follows Python on names
  written in Latin-1.
\<close>

definition lower_cp :: "nat \<Rightarrow> nat" where
  "lower_cp c =
     (if (0x41 \<le> c \<and> c \<le> 0x5A) \<or> (0xC0 \<le> c \<and> c \<le> 0xDE \<and> c \<noteq> 0xD7) then c + 0x20 else c)"

definition lower :: "pystr \<Rightarrow> pystr" where
  "lower s = map lower_cp s"

text \<open>
  \<open>str.rfind(c)\<close>: the highest index at which \<open>c\<close> occurs, or \<open>-1\<close>.
\<close>

fun rfind_from :: "nat \<Rightarrow> pystr \<Rightarrow> nat \<Rightarrow> int \<Rightarrow> int" where
  "rfind_from c [] i found = found"
| "rfind_from c (x # xs) i found = rfind_from c xs (i + 1) (if x = c then int i else found)"

definition rfind :: "pystr \<Rightarrow> nat \<Rightarrow> int" where
  "rfind s c = rfind_from c s 0 (- 1)"

text \<open>
  \<open>PurePath.suffix\<close> of a path whose final component is \<open>name\<close>:
  \<^verbatim>\<open>i = name.rfind('.'); return name[i:] if 0 < i < len(name) - 1 else ''\<close>.
\<close>

definition suffix :: "pystr \<Rightarrow> pystr" where
  "suffix name =
     (let i = rfind name 0x2E
      in if 0 < i \<and> i < int (length name) - 1 then drop (nat i) name else [])"

definition CONVENTIONAL_NAMES :: "pystr set" where
  "CONVENTIONAL_NAMES = str ` {''makefile'', ''dockerfile'', ''readme'', ''license'', ''changelog''}"

text \<open>
  \<open>should_include_file\<close> reads three things of its path: the final component \<open>name\<close>,
  its suffix, and \<open>stat().st_size\<close>. The second argument is the outcome of \<open>stat\<close>:
  \<open>Some size\<close>, or \<open>None\<close> when it raises \<open>OSError\<close>.
\<close>

definition should_include_file :: "pystr \<Rightarrow> nat option \<Rightarrow> bool" where
  "should_include_file file_name st =
     (let ext = lower (suffix file_name);
          name = lower file_name
      in if ext \<in> BINARY_EXTENSIONS then False
         else if ext \<in> TEXT_EXTENSIONS then True
         else if ext = [] \<and> name \<in> CONVENTIONAL_NAMES then True
         else (case st of
                 None \<Rightarrow> False
               | Some st_size \<Rightarrow> if st_size > 10 * 1024 * 1024 then False else False))"

definition startswith :: "pystr \<Rightarrow> pystr \<Rightarrow> bool" where
  "startswith s p \<longleftrightarrow> take (length p) s = p"

definition should_skip_directory :: "pystr \<Rightarrow> bool" where
  "should_skip_directory dir_name \<longleftrightarrow> dir_name \<in> SKIP_DIRECTORIES \<or> startswith dir_name (str ''.'')"

section \<open>The filesystem\<close>

text \<open>
  What the scanner can observe of a directory tree. A regular file has a name, the
  outcome of \<open>stat\<close> (its size, or \<open>None\<close> when \<open>stat\<close> raises \<open>OSError\<close>) and
  the outcome of opening and reading it (its bytes, or the exception raised). A directory
  has a name and the outcome of \<open>iterdir\<close>: its entries in the order the operating system
  yields them, or the exception raised. \<open>Special\<close> is an entry that is neither
  (\<open>is_dir()\<close> and \<open>is_file()\<close> are both false: a socket, a dangling link).
\<close>

datatype entry =
    File pystr "nat option" "exc + byte list"
  | Dir pystr listing
  | Special pystr
and listing =
    Listed "entry list"
  | Failed exc

fun name :: "entry \<Rightarrow> pystr" where
  "name (File n st data) = n"
| "name (Dir n sub) = n"
| "name (Special n) = n"

fun is_dir :: "entry \<Rightarrow> bool" where
  "is_dir (Dir n sub) = True"
| "is_dir e = False"

fun is_file :: "entry \<Rightarrow> bool" where
  "is_file (File n st data) = True"
| "is_file e = False"

text \<open>
  \<open>sorted(root_path.iterdir(), key=lambda x: (not x.is_dir(), x.name.lower()))\<close>
  (lines 122 and 172). Python's \<open>sorted\<close> is stable, as \<open>sort_key\<close> is; tuples compare
  lexicographically, \<open>False\<close> before \<open>True\<close>, and strings by code point.
\<close>

definition item_key :: "entry \<Rightarrow> bool \<times> pystr" where
  "item_key x = (\<not> is_dir x, lower (name x))"

definition sorted_items :: "entry list \<Rightarrow> entry list" where
  "sorted_items es = sort_key item_key es"

text \<open>
  Sorting and filtering a listing do not increase its size: the measure under which both
  traversals terminate.
\<close>

lemma size_list_insort_key: "size_list f (insort_key k x xs) = Suc (f x + size_list f xs)"
  by (induction xs) auto

lemma size_list_sort_key: "size_list f (sort_key k xs) = size_list f xs"
  by (induction xs) (auto simp: size_list_insort_key)

lemma size_list_filter_le: "size_list f (filter P xs) \<le> size_list f xs"
  by (induction xs) auto

lemma size_list_visible_items:
  "size_list size (filter P (sorted_items es)) < Suc (size_list size es)"
  using size_list_filter_le [of size P "sorted_items es"]
  by (simp add: sorted_items_def size_list_sort_key)

lemma size_list_sorted_items: "size_list size (sorted_items es) < Suc (size_list size es)"
  by (simp add: sorted_items_def size_list_sort_key)

section \<open>The Tree Builder (lines 115--143)\<close>

text \<open>
  \<open>root_path\<close> is given by what \<open>iterdir\<close> does on it. \<open>output_lines\<close> is the list the
  source appends to in place; the model returns it updated. \<open>tree_loop\<close> is the
  \<open>for index, item in enumerate(items)\<close> loop, \<open>n\<close> being \<open>len(items)\<close>. An exception
  of \<open>iterdir\<close> is raised inside \<open>sorted\<close>, before the loop starts; the recursive calls
  catch their own.
\<close>

function generate_tree_structure :: "listing \<Rightarrow> pystr \<Rightarrow> bool \<Rightarrow> pystr list option \<Rightarrow> pystr list"
  and tree_loop :: "pystr \<Rightarrow> nat \<Rightarrow> nat \<Rightarrow> entry list \<Rightarrow> pystr list \<Rightarrow> pystr list"
where
  "generate_tree_structure root_path prefix is_last output_lines =
     (let output_lines = (case output_lines of None \<Rightarrow> [] | Some l \<Rightarrow> l)
      in case root_path of
           Listed es \<Rightarrow>
             (let items = sorted_items es;
                  items = filter (\<lambda>item. \<not> (is_dir item \<and> should_skip_directory (name item))) items
              in tree_loop prefix (length items) 0 items output_lines)
         | Failed (PermissionError m) \<Rightarrow> output_lines @ [prefix @ str ''[Permission Denied]'']
         | Failed (OtherError m) \<Rightarrow> output_lines @ [prefix @ str ''[Error: '' @ m @ str '']''])"
| "tree_loop prefix n index [] output_lines = output_lines"
| "tree_loop prefix n index (item # rest) output_lines =
     (let is_last_item = (int index = int n - 1);
          connector = (if is_last_item then TREE_LAST else TREE_BRANCH);
          output_lines =
            (if is_dir item then output_lines @ [prefix @ connector @ name item @ str ''/'']
             else output_lines @ [prefix @ connector @ name item]);
          output_lines =
            (case item of
               Dir n' sub \<Rightarrow>
                 (let extension = (if is_last_item then TREE_SPACE else TREE_VERTICAL)
                  in generate_tree_structure sub (prefix @ extension) is_last_item (Some output_lines))
             | _ \<Rightarrow> output_lines)
      in tree_loop prefix n (index + 1) rest output_lines)"
  by pat_completeness auto

termination
  by (relation "measure (\<lambda>x. case x of
          Inl (root_path, prefix, is_last, output_lines) \<Rightarrow> size root_path
        | Inr (prefix, n, index, items, output_lines) \<Rightarrow> size_list size items)")
     (auto simp: size_list_visible_items)

section \<open>The Reader (lines 146--161)\<close>

datatype encoding = UTF_8 | UTF_8_SIG | LATIN_1 | CP1252 | ISO_8859_1

definition encodings :: "encoding list" where
  "encodings = [UTF_8, UTF_8_SIG, LATIN_1, CP1252, ISO_8859_1]"

text \<open>
  Python's strict decoders; \<open>None\<close> is \<open>UnicodeDecodeError\<close>. UTF-8 accepts the
  well-formed byte sequences of the Unicode standard only: no overlong forms, no
  surrogates, nothing above U+10FFFF.
\<close>

definition is_cont :: "byte \<Rightarrow> bool" where
  "is_cont c \<longleftrightarrow> 0x80 \<le> c \<and> c \<le> 0xBF"

definition second_ok :: "byte \<Rightarrow> byte \<Rightarrow> bool" where
  "second_ok b c \<longleftrightarrow>
     (if b = 0xE0 then 0xA0 else if b = 0xF0 then 0x90 else 0x80) \<le> c
     \<and> c \<le> (if b = 0xED then 0x9F else if b = 0xF4 then 0x8F else 0xBF)"

fun utf8_decode :: "byte list \<Rightarrow> pystr option" where
  "utf8_decode [] = Some []"
| "utf8_decode (b # bs) =
     (if b < 0x80 then map_option (Cons (unat b)) (utf8_decode bs)
      else if 0xC2 \<le> b \<and> b \<le> 0xDF then
        (case bs of
           c1 # r \<Rightarrow>
             if is_cont c1
             then map_option (Cons (unat b mod 32 * 64 + unat c1 mod 64)) (utf8_decode r)
             else None
         | _ \<Rightarrow> None)
      else if 0xE0 \<le> b \<and> b \<le> 0xEF then
        (case bs of
           c1 # c2 # r \<Rightarrow>
             if second_ok b c1 \<and> is_cont c2
             then map_option (Cons (unat b mod 16 * 4096 + unat c1 mod 64 * 64 + unat c2 mod 64))
                    (utf8_decode r)
             else None
         | _ \<Rightarrow> None)
      else if 0xF0 \<le> b \<and> b \<le> 0xF4 then
        (case bs of
           c1 # c2 # c3 # r \<Rightarrow>
             if second_ok b c1 \<and> is_cont c2 \<and> is_cont c3
             then map_option
                    (Cons (unat b mod 8 * 262144 + unat c1 mod 64 * 4096 + unat c2 mod 64 * 64
                           + unat c3 mod 64))
                    (utf8_decode r)
             else None
         | _ \<Rightarrow> None)
      else None)"

text \<open>\<open>utf-8-sig\<close> drops a leading byte order mark EF BB BF, then decodes UTF-8.\<close>

definition utf8_sig_decode :: "byte list \<Rightarrow> pystr option" where
  "utf8_sig_decode bs =
     (if take 3 bs = [0xEF, 0xBB, 0xBF] then utf8_decode (drop 3 bs) else utf8_decode bs)"

text \<open>\<open>latin-1\<close> and its alias \<open>iso-8859-1\<close> map each byte to the code point of its value.\<close>

definition latin1_decode :: "byte list \<Rightarrow> pystr option" where
  "latin1_decode bs = Some (map unat bs)"

text \<open>
  \<open>cp1252\<close> differs from Latin-1 on 0x80--0x9F; the bytes 0x81, 0x8D, 0x8F, 0x90 and 0x9D
  are undefined and raise.
\<close>

definition cp1252_high :: "nat option list" where
  "cp1252_high =
     [Some 0x20AC, None, Some 0x201A, Some 0x0192, Some 0x201E, Some 0x2026, Some 0x2020, Some 0x2021,
      Some 0x02C6, Some 0x2030, Some 0x0160, Some 0x2039, Some 0x0152, None, Some 0x017D, None,
      None, Some 0x2018, Some 0x2019, Some 0x201C, Some 0x201D, Some 0x2022, Some 0x2013, Some 0x2014,
      Some 0x02DC, Some 0x2122, Some 0x0161, Some 0x203A, Some 0x0153, None, Some 0x017E, Some 0x0178]"

definition cp1252_char :: "byte \<Rightarrow> nat option" where
  "cp1252_char b = (if 0x80 \<le> b \<and> b \<le> 0x9F then cp1252_high ! (unat b - 0x80) else Some (unat b))"

fun cp1252_decode :: "byte list \<Rightarrow> pystr option" where
  "cp1252_decode [] = Some []"
| "cp1252_decode (b # bs) =
     (case cp1252_char b of
        None \<Rightarrow> None
      | Some c \<Rightarrow> map_option (Cons c) (cp1252_decode bs))"

fun decode :: "encoding \<Rightarrow> byte list \<Rightarrow> pystr option" where
  "decode UTF_8 bs = utf8_decode bs"
| "decode UTF_8_SIG bs = utf8_sig_decode bs"
| "decode LATIN_1 bs = latin1_decode bs"
| "decode CP1252 bs = cp1252_decode bs"
| "decode ISO_8859_1 bs = latin1_decode bs"

text \<open>
  A file opened in text mode with the default \<open>newline=None\<close> is read with universal
  newlines: \<open>\r\n\<close> and a lone \<open>\r\<close> become \<open>\n\<close>.
\<close>

fun universal_newlines :: "pystr \<Rightarrow> pystr" where
  "universal_newlines [] = []"
| "universal_newlines [c] = [if c = 0x0D then 0x0A else c]"
| "universal_newlines (c # d # cs) =
     (if c = 0x0D \<and> d = 0x0A then 0x0A # universal_newlines cs
      else if c = 0x0D then 0x0A # universal_newlines (d # cs)
      else c # universal_newlines (d # cs))"

text \<open>
  \<open>open(file_path, 'r', encoding=encoding, errors='strict')\<close> followed by \<open>f.read()\<close>, on a
  file whose opening and reading yields \<open>data\<close>: it raises \<open>UnicodeDecodeError\<close>, or
  another exception, or returns the text.
\<close>

datatype read_exc = UnicodeDecodeError | Raised exc

definition open_read :: "exc + byte list \<Rightarrow> encoding \<Rightarrow> read_exc + pystr" where
  "open_read data enc =
     (case data of
        Inl e \<Rightarrow> Inl (Raised e)
      | Inr bs \<Rightarrow>
          (case decode enc bs of
             None \<Rightarrow> Inl UnicodeDecodeError
           | Some text \<Rightarrow> Inr (universal_newlines text)))"

text \<open>
  The \<open>for encoding in encodings\<close> loop: \<open>Some r\<close> when it returns \<open>r\<close> from inside,
  \<open>None\<close> when it runs to its end.
\<close>

fun read_loop :: "exc + byte list \<Rightarrow> encoding list \<Rightarrow> pystr option" where
  "read_loop data [] = None"
| "read_loop data (encoding # rest) =
     (case open_read data encoding of
        Inr content \<Rightarrow> Some (sanitize_xml_content content)
      | Inl UnicodeDecodeError \<Rightarrow> read_loop data rest
      | Inl (Raised e) \<Rightarrow> Some (str ''[Error reading file: '' @ str_of_exc e @ str '']''))"

definition read_file_content :: "exc + byte list \<Rightarrow> pystr" where
  "read_file_content data =
     (case read_loop data encodings of
        Some r \<Rightarrow> r
      | None \<Rightarrow> str ''[Error: Unable to decode file with supported encodings]'')"

section \<open>The Content Collector (lines 164--190)\<close>

text \<open>\<open>sep.join(parts)\<close>, and \<open>str\<close> of a relative POSIX path with the given segments.\<close>

fun join :: "pystr \<Rightarrow> pystr list \<Rightarrow> pystr" where
  "join sep [] = []"
| "join sep [p] = p"
| "join sep (p # q # ps) = p @ sep @ join sep (q # ps)"

definition str_path :: "pystr list \<Rightarrow> pystr" where
  "str_path segments = join (str ''/'') segments"

text \<open>
  \<open>root_path\<close> is given by what \<open>iterdir\<close> does on it, and \<open>rel\<close> is
  \<open>root_path.relative_to(base_path)\<close> as a list of segments: empty at the top-level call,
  where \<open>base_path\<close> is \<open>root_path\<close>. \<open>collect_loop\<close> is the \<open>for item in sorted(...)\<close>
  loop with \<open>file_contents\<close> as its state. On an exception of \<open>iterdir\<close> the function
  returns the still empty \<open>file_contents\<close>.
\<close>

function collect_file_contents :: "listing \<Rightarrow> pystr list \<Rightarrow> (pystr \<times> pystr) list"
  and collect_loop :: "pystr list \<Rightarrow> entry list \<Rightarrow> (pystr \<times> pystr) list \<Rightarrow> (pystr \<times> pystr) list"
where
  "collect_file_contents root_path rel =
     (let file_contents = []
      in case root_path of
           Listed es \<Rightarrow> collect_loop rel (sorted_items es) file_contents
         | Failed (PermissionError m) \<Rightarrow> file_contents
         | Failed (OtherError m) \<Rightarrow> file_contents)"
| "collect_loop rel [] file_contents = file_contents"
| "collect_loop rel (item # rest) file_contents =
     (if is_dir item \<and> should_skip_directory (name item) then collect_loop rel rest file_contents
      else
        (case item of
           File n st data \<Rightarrow>
             if should_include_file n st
             then (let relative_path = rel @ [n];
                       content = read_file_content data
                   in collect_loop rel rest (file_contents @ [(str_path relative_path, content)]))
             else collect_loop rel rest file_contents
         | Dir n sub \<Rightarrow>
             collect_loop rel rest (file_contents @ collect_file_contents sub (rel @ [n]))
         | Special n \<Rightarrow> collect_loop rel rest file_contents))"
  by pat_completeness auto

termination
  by (relation "measure (\<lambda>x. case x of
          Inl (root_path, rel) \<Rightarrow> size root_path
        | Inr (rel, items, file_contents) \<Rightarrow> size_list size items)")
     (auto simp: size_list_sorted_items)

section \<open>The Exporters (lines 193--349)\<close>

text \<open>
  A call that may raise: \<open>and_then\<close> runs the rest of the function on its result and
  lets an exception pass through, as a statement outside any \<open>try\<close> does.
\<close>

definition and_then :: "'e + 'a \<Rightarrow> ('a \<Rightarrow> 'e + 'b) \<Rightarrow> 'e + 'b" where
  "and_then m f = (case m of Inl e \<Rightarrow> Inl e | Inr x \<Rightarrow> f x)"

text \<open>\<open>str(n)\<close> of a non-negative integer, as the f-strings format \<open>len(file_contents)\<close>.\<close>

function str_of_nat :: "nat \<Rightarrow> pystr" where
  "str_of_nat n = (if n < 10 then [0x30 + n] else str_of_nat (n div 10) @ [0x30 + n mod 10])"
  by pat_completeness auto

termination
  by (relation "measure (\<lambda>n. n)") auto

subsection \<open>The Word exporter (lines 193--270)\<close>

text \<open>
  The Word document under construction is the list of its blocks. Which texts
  python-docx refuses is not part of the scanner: \<open>refuses text\<close> is the exception
  raised when the text of a new paragraph is set to \<open>text\<close>, if any. python-docx
  appends the paragraph to the document first and sets its text, when the text is not
  empty, afterwards: a refused call has already added an empty paragraph. An exception
  therefore comes with the document as the call left it. Font and colour settings add
  no block and are left out.
\<close>

datatype docx_block = Heading nat pystr | Para pystr | Break

type_synonym docx = "docx_block list"

definition add_paragraph :: "(pystr \<Rightarrow> exc option) \<Rightarrow> docx \<Rightarrow> pystr \<Rightarrow> exc \<times> docx + docx" where
  "add_paragraph refuses doc text =
     (if text = [] then Inr (doc @ [Para []])
      else case refuses text of
             Some e \<Rightarrow> Inl (e, doc @ [Para []])
           | None \<Rightarrow> Inr (doc @ [Para text]))"

definition add_heading :: "(pystr \<Rightarrow> exc option) \<Rightarrow> docx \<Rightarrow> pystr \<Rightarrow> nat \<Rightarrow> exc \<times> docx + docx" where
  "add_heading refuses doc text level =
     (if text = [] then Inr (doc @ [Heading level []])
      else case refuses text of
             Some e \<Rightarrow> Inl (e, doc @ [Para []])
           | None \<Rightarrow> Inr (doc @ [Heading level text]))"

definition add_page_break :: "docx \<Rightarrow> docx" where
  "add_page_break doc = doc @ [Break]"

text \<open>\<open>doc.save(output_file)\<close>: \<open>save_error doc\<close> is the exception of writing the file, if any.\<close>

definition save :: "(docx \<Rightarrow> exc option) \<Rightarrow> docx \<Rightarrow> exc \<times> docx + docx" where
  "save save_error doc = (case save_error doc of Some e \<Rightarrow> Inl (e, doc) | None \<Rightarrow> Inr doc)"

text \<open>
  The loop \<open>for index, (relative_path, content) in enumerate(file_contents, 1)\<close> of
  \<open>generate_word_document\<close> (lines 235--260). The \<open>try\<close> of lines 246--254 encloses the
  paragraph of the content only; its handler adds the diagnostic paragraph to the
  document as the refused call left it.
\<close>

fun word_files :: "(pystr \<Rightarrow> exc option) \<Rightarrow> docx \<Rightarrow> nat \<Rightarrow> (pystr \<times> pystr) list \<Rightarrow> exc \<times> docx + docx" where
  "word_files refuses doc index [] = Inr doc"
| "word_files refuses doc index ((relative_path, content) # rest) =
     and_then (add_paragraph refuses doc (replicate 60 0x2500)) (\<lambda>doc.
     and_then (add_paragraph refuses doc (str ''File: '' @ relative_path)) (\<lambda>doc.
     and_then (add_paragraph refuses doc (replicate 60 0x2500)) (\<lambda>doc.
     and_then (case add_paragraph refuses doc content of
                 Inr doc \<Rightarrow> Inr doc
               | Inl (e, doc) \<Rightarrow>
                   add_paragraph refuses doc (str ''[Error adding content: '' @ str_of_exc e @ str '']''))
       (\<lambda>doc.
     and_then (add_paragraph refuses doc []) (\<lambda>doc.
     word_files refuses (if index mod 3 = 0 then add_page_break doc else doc) (index + 1) rest)))))"

text \<open>
  \<open>generate_word_document\<close>: \<open>current_dir\<close> is \<open>str(Path.cwd())\<close>, \<open>current_dir_name\<close> its
  last component and \<open>root\<close> what the scanner finds there. The result is the document
  saved, or the exception that ends the run.
\<close>

definition generate_word_document ::
  "(pystr \<Rightarrow> exc option) \<Rightarrow> (docx \<Rightarrow> exc option) \<Rightarrow> pystr \<Rightarrow> pystr \<Rightarrow> listing \<Rightarrow> exc \<times> docx + docx" where
  "generate_word_document refuses save_error current_dir current_dir_name root =
     and_then (add_heading refuses [] (str ''Repository Dump'') 0) (\<lambda>doc.
     and_then (add_paragraph refuses doc (str ''Root Directory: '' @ current_dir)) (\<lambda>doc.
     and_then (add_paragraph refuses doc (replicate 60 0x3D)) (\<lambda>doc.
     and_then (add_paragraph refuses doc []) (\<lambda>doc.
     and_then (add_heading refuses doc (str ''Directory Structure'') 1) (\<lambda>doc.
     and_then (add_paragraph refuses doc (current_dir_name @ str ''/'')) (\<lambda>doc.
     let tree_lines = generate_tree_structure root [] True None;
         tree_text = join [0x0A] tree_lines;
         tree_text = sanitize_xml_content tree_text
     in
     and_then (add_paragraph refuses doc tree_text) (\<lambda>doc.
     let doc = add_page_break doc;
         file_contents = collect_file_contents root []
     in
     and_then (add_heading refuses doc
                 (str ''File Contents ('' @ str_of_nat (length file_contents) @ str '' files)'') 1) (\<lambda>doc.
     and_then (word_files refuses doc 1 file_contents) (\<lambda>doc.
     and_then (add_paragraph refuses doc (replicate 60 0x3D)) (\<lambda>doc.
     and_then (add_paragraph refuses doc
                 (str ''Total files processed: '' @ str_of_nat (length file_contents))) (\<lambda>doc.
     save save_error doc)))))))))))"

subsection \<open>The PDF exporter (lines 273--349)\<close>

text \<open>
  A reportlab stylesheet is the list of the names of its styles, \<open>sample_styles\<close> being
  what \<open>getSampleStyleSheet()\<close> returns. \<open>styles.add\<close> raises \<open>KeyError\<close> when the name is
  already defined, and \<open>styles[name]\<close> when it is not; the exception carries the text of
  \<open>str(e)\<close>.
\<close>

definition already_defined :: "string \<Rightarrow> exc" where
  "already_defined style =
     OtherError ([0x22] @ str ''Style '' @ [0x27] @ str style @ [0x27]
                 @ str '' already defined in stylesheet'' @ [0x22])"

definition not_found :: "string \<Rightarrow> exc" where
  "not_found style =
     OtherError ([0x22] @ str ''Style '' @ [0x27] @ str style @ [0x27]
                 @ str '' not found in stylesheet'' @ [0x22])"

definition styles_add :: "string list \<Rightarrow> string \<Rightarrow> exc + string list" where
  "styles_add styles style =
     (if style \<in> set styles then Inl (already_defined style) else Inr (styles @ [style]))"

text \<open>
  The PDF document under construction is the list \<open>elements\<close> of its flowables, each
  with the name of its style. \<open>paragraph_refuses\<close> and \<open>preformatted_refuses\<close> are the
  exceptions that reportlab's \<open>Paragraph\<close> and \<open>Preformatted\<close> raise on a text, if any;
  the style is looked up before the constructor is called. \<open>build_error\<close> is the
  exception that \<open>doc.build(elements)\<close> raises, if any.
\<close>

datatype flowable =
    Paragraph pystr string
  | Preformatted pystr string
  | Spacer nat nat
  | PageBreak

definition new_Paragraph ::
  "(pystr \<Rightarrow> exc option) \<Rightarrow> string list \<Rightarrow> flowable list \<Rightarrow> pystr \<Rightarrow> string \<Rightarrow> exc + flowable list" where
  "new_Paragraph paragraph_refuses styles elements text style =
     (if style \<notin> set styles then Inl (not_found style)
      else case paragraph_refuses text of
             Some e \<Rightarrow> Inl e
           | None \<Rightarrow> Inr (elements @ [Paragraph text style]))"

definition new_Preformatted ::
  "(pystr \<Rightarrow> exc option) \<Rightarrow> string list \<Rightarrow> flowable list \<Rightarrow> pystr \<Rightarrow> string \<Rightarrow> exc + flowable list" where
  "new_Preformatted preformatted_refuses styles elements text style =
     (if style \<notin> set styles then Inl (not_found style)
      else case preformatted_refuses text of
             Some e \<Rightarrow> Inl e
           | None \<Rightarrow> Inr (elements @ [Preformatted text style]))"

definition build :: "(flowable list \<Rightarrow> exc option) \<Rightarrow> flowable list \<Rightarrow> exc + flowable list" where
  "build build_error elements = (case build_error elements of Some e \<Rightarrow> Inl e | None \<Rightarrow> Inr elements)"

text \<open>\<open>s.replace(c, r)\<close> for a single character \<open>c\<close>, and the escaping of line 332.\<close>

definition replace :: "pystr \<Rightarrow> nat \<Rightarrow> pystr \<Rightarrow> pystr" where
  "replace s c r = concat (map (\<lambda>x. if x = c then r else [x]) s)"

definition escape :: "pystr \<Rightarrow> pystr" where
  "escape content =
     replace (replace (replace content 0x26 (str ''&amp;'')) 0x3C (str ''&lt;'')) 0x3E (str ''&gt;'')"

text \<open>
  The loop of \<open>generate_pdf_document\<close> (lines 322--338): no statement of it is inside a
  \<open>try\<close>.
\<close>

fun pdf_files :: "(pystr \<Rightarrow> exc option) \<Rightarrow> (pystr \<Rightarrow> exc option) \<Rightarrow> string list \<Rightarrow> flowable list \<Rightarrow> nat
    \<Rightarrow> (pystr \<times> pystr) list \<Rightarrow> exc + flowable list" where
  "pdf_files paragraph_refuses preformatted_refuses styles elements index [] = Inr elements"
| "pdf_files paragraph_refuses preformatted_refuses styles elements index ((relative_path, content) # rest) =
     and_then (new_Paragraph paragraph_refuses styles elements (replicate 100 0x2500) ''Code'')
       (\<lambda>elements.
     and_then (new_Paragraph paragraph_refuses styles elements (str ''File: '' @ relative_path) ''FileHeader'')
       (\<lambda>elements.
     and_then (new_Paragraph paragraph_refuses styles elements (replicate 100 0x2500) ''Code'')
       (\<lambda>elements.
     let elements = elements @ [Spacer 1 6];
         content_escaped = escape content
     in
     and_then (new_Preformatted preformatted_refuses styles elements content_escaped ''Code'')
       (\<lambda>elements.
     let elements = elements @ [Spacer 1 12]
     in pdf_files paragraph_refuses preformatted_refuses styles
          (if index mod 2 = 0 then elements @ [PageBreak] else elements) (index + 1) rest))))"

text \<open>
  \<open>generate_pdf_document\<close>, with the registration of the styles \<open>Code\<close> and
  \<open>FileHeader\<close> of lines 286--289 and the final \<open>doc.build(elements)\<close>.
\<close>

definition generate_pdf_document ::
  "string list \<Rightarrow> (pystr \<Rightarrow> exc option) \<Rightarrow> (pystr \<Rightarrow> exc option) \<Rightarrow> (flowable list \<Rightarrow> exc option)
     \<Rightarrow> pystr \<Rightarrow> pystr \<Rightarrow> listing \<Rightarrow> exc + flowable list" where
  "generate_pdf_document sample_styles paragraph_refuses preformatted_refuses build_error
      current_dir current_dir_name root =
     (let elements = []
      in
     and_then (styles_add sample_styles ''Code'') (\<lambda>styles.
     and_then (styles_add styles ''FileHeader'') (\<lambda>styles.
     and_then (new_Paragraph paragraph_refuses styles elements (str ''Repository Dump'') ''Heading1'')
       (\<lambda>elements.
     let elements = elements @ [Spacer 1 12]
     in
     and_then (new_Paragraph paragraph_refuses styles elements (str ''Root Directory: '' @ current_dir) ''Normal'')
       (\<lambda>elements.
     and_then (new_Paragraph paragraph_refuses styles elements (replicate 100 0x3D) ''Code'') (\<lambda>elements.
     let elements = elements @ [Spacer 1 12]
     in
     and_then (new_Paragraph paragraph_refuses styles elements (str ''Directory Structure'') ''Heading2'')
       (\<lambda>elements.
     let elements = elements @ [Spacer 1 6];
         tree_lines = generate_tree_structure root [] True None;
         tree_text = current_dir_name @ str ''/'' @ [0x0A] @ join [0x0A] tree_lines;
         tree_text = sanitize_xml_content tree_text
     in
     and_then (new_Preformatted preformatted_refuses styles elements tree_text ''Code'') (\<lambda>elements.
     let elements = elements @ [PageBreak];
         file_contents = collect_file_contents root []
     in
     and_then (new_Paragraph paragraph_refuses styles elements
                 (str ''File Contents ('' @ str_of_nat (length file_contents) @ str '' files)'') ''Heading2'')
       (\<lambda>elements.
     let elements = elements @ [Spacer 1 12]
     in
     and_then (pdf_files paragraph_refuses preformatted_refuses styles elements 1 file_contents)
       (\<lambda>elements.
     and_then (new_Paragraph paragraph_refuses styles elements (replicate 100 0x3D) ''Code'') (\<lambda>elements.
     and_then (new_Paragraph paragraph_refuses styles elements
                 (str ''Total files processed: '' @ str_of_nat (length file_contents)) ''Normal'')
       (\<lambda>elements.
     build build_error elements))))))))))))"






section \<open>The traversal as a list of rows\<close>

text \<open>
  The contracts of the two traversals speak of the descendants of the root that are not
  under a skipped directory, in depth-first pre-order. \<open>walk\<close> lists them: one \<open>Entry\<close>
  row for every entry reached, with its path relative to the root as a list of segments,
  and one \<open>Marker\<close> row for every directory whose enumeration fails, with the path of
  that directory. An entry is \<open>visible\<close> when it is not a directory to skip; the entries
  of a directory are taken in the order of \<open>sorted_items\<close>.
\<close>

definition visible :: "entry \<Rightarrow> bool" where
  "visible item \<longleftrightarrow> \<not> (is_dir item \<and> should_skip_directory (name item))"

datatype row = Entry "pystr list" entry | Marker "pystr list" exc

function walk :: "pystr list \<Rightarrow> listing \<Rightarrow> row list"
  and walk_items :: "pystr list \<Rightarrow> entry list \<Rightarrow> row list"
where
  "walk path (Failed e) = [Marker path e]"
| "walk path (Listed es) = walk_items path (filter visible (sorted_items es))"
| "walk_items path [] = []"
| "walk_items path (item # rest) =
     Entry (path @ [name item]) item
       # (case item of Dir n sub \<Rightarrow> walk (path @ [n]) sub | _ \<Rightarrow> [])
       @ walk_items path rest"
  by pat_completeness auto

termination
  by (relation "measure (\<lambda>x. case x of
          Inl (path, l) \<Rightarrow> size l
        | Inr (path, items) \<Rightarrow> size_list size items)")
     (auto simp: size_list_visible_items)

fun path_of :: "row \<Rightarrow> pystr list" where
  "path_of (Entry path item) = path"
| "path_of (Marker path e) = path"

fun is_entry :: "row \<Rightarrow> bool" where
  "is_entry (Entry path item) = True"
| "is_entry (Marker path e) = False"

fun depth :: "row \<Rightarrow> nat" where
  "depth (Entry path item) = length path"
| "depth (Marker path e) = length path"

text \<open>The directories above a row: for an entry, all segments of its path but the last.\<close>

fun ancestors :: "row \<Rightarrow> pystr list" where
  "ancestors (Entry path item) = butlast path"
| "ancestors (Marker path e) = path"

text \<open>
  A tree line \<open>renders\<close> a row when it is the prefix, one connector or continuation token
  for each level of the row below level \<open>k\<close>, and the row's label: the name, with a slash
  for a directory, or the marker of the exception.
\<close>

definition marker_line :: "exc \<Rightarrow> pystr" where
  "marker_line e =
     (case e of
        PermissionError m \<Rightarrow> str ''[Permission Denied]''
      | OtherError m \<Rightarrow> str ''[Error: '' @ m @ str '']'')"

fun label :: "row \<Rightarrow> pystr" where
  "label (Entry path item) = (if is_dir item then name item @ str ''/'' else name item)"
| "label (Marker path e) = marker_line e"

definition TOKENS :: "pystr set" where
  "TOKENS = {TREE_BRANCH, TREE_LAST, TREE_VERTICAL, TREE_SPACE}"

definition renders :: "pystr \<Rightarrow> nat \<Rightarrow> pystr \<Rightarrow> row \<Rightarrow> bool" where
  "renders prefix k line r \<longleftrightarrow>
     (\<exists>toks. set toks \<subseteq> TOKENS \<and> length toks + k = depth r \<and> line = prefix @ concat toks @ label r)"

text \<open>
  What the Content Collector holds for a row: the pair of an included file, nothing for
  any other row.
\<close>

fun included :: "row \<Rightarrow> bool" where
  "included (Entry path (File f st data)) = should_include_file f st"
| "included r = False"

fun collected :: "row \<Rightarrow> (pystr \<times> pystr) list" where
  "collected (Entry path (File n st data)) =
     (if should_include_file n st then [(str_path path, read_file_content data)] else [])"
| "collected r = []"

text \<open>
  A listing as a filesystem yields it: the names within one directory are pairwise
  distinct, and no name contains a slash.
\<close>

fun wf_entry :: "entry \<Rightarrow> bool"
  and wf_listing :: "listing \<Rightarrow> bool"
where
  "wf_entry (File f st data) \<longleftrightarrow> 0x2F \<notin> set f"
| "wf_entry (Dir d sub) \<longleftrightarrow> 0x2F \<notin> set d \<and> wf_listing sub"
| "wf_entry (Special f) \<longleftrightarrow> 0x2F \<notin> set f"
| "wf_listing (Listed es) \<longleftrightarrow> distinct (map name es) \<and> list_all wf_entry es"
| "wf_listing (Failed e) \<longleftrightarrow> True"

text \<open>
  Names written in Latin-1, the range on which \<open>lower\<close> is Python's \<open>str.lower()\<close>: every
  name in the tree has its code points at most U+00FF.
\<close>

fun latin1_entry :: "entry \<Rightarrow> bool"
  and latin1_names :: "listing \<Rightarrow> bool"
where
  "latin1_entry (File f st data) \<longleftrightarrow> list_all (\<lambda>c. c \<le> 0xFF) f"
| "latin1_entry (Dir d sub) \<longleftrightarrow> list_all (\<lambda>c. c \<le> 0xFF) d \<and> latin1_names sub"
| "latin1_entry (Special f) \<longleftrightarrow> list_all (\<lambda>c. c \<le> 0xFF) f"
| "latin1_names (Listed es) \<longleftrightarrow> list_all latin1_entry es"
| "latin1_names (Failed e) \<longleftrightarrow> True"

section \<open>Auxiliary notions\<close>

text \<open>
  The value of \<open>output_lines\<close> after line 119, and the connector and the extension that
  the loop of the Tree Builder chooses at position \<open>index\<close> of \<open>n\<close> items.
\<close>

definition lines_of :: "pystr list option \<Rightarrow> pystr list" where
  "lines_of ol = (case ol of None \<Rightarrow> [] | Some l \<Rightarrow> l)"

definition connector_of :: "nat \<Rightarrow> nat \<Rightarrow> pystr" where
  "connector_of n index = (if int index = int n - 1 then TREE_LAST else TREE_BRANCH)"

definition extension_of :: "nat \<Rightarrow> nat \<Rightarrow> pystr" where
  "extension_of n index = (if int index = int n - 1 then TREE_SPACE else TREE_VERTICAL)"

text \<open>
  What one item of a directory adds to \<open>output_lines\<close>, at position \<open>index\<close> of \<open>n\<close>
  items: its own line, then the tree of the directory it is.
\<close>

definition item_lines :: "pystr \<Rightarrow> nat \<Rightarrow> nat \<Rightarrow> entry \<Rightarrow> pystr list" where
  "item_lines prefix n index item =
     (prefix @ connector_of n index @ (if is_dir item then name item @ str ''/'' else name item))
       # (case item of
            Dir d sub \<Rightarrow>
              generate_tree_structure sub (prefix @ extension_of n index) (int index = int n - 1) None
          | _ \<Rightarrow> [])"

text \<open>What one item of a directory adds to \<open>file_contents\<close>.\<close>

definition item_contents :: "pystr list \<Rightarrow> entry \<Rightarrow> (pystr \<times> pystr) list" where
  "item_contents rel item =
     (if \<not> visible item then []
      else case item of
             File f st data \<Rightarrow>
               if should_include_file f st then [(str_path (rel @ [f]), read_file_content data)] else []
           | Dir d sub \<Rightarrow> collect_file_contents sub (rel @ [d])
           | Special f \<Rightarrow> [])"

text \<open>Rows seen from a directory further up, and the invariants of the rows of a walk.\<close>

fun prepend :: "pystr list \<Rightarrow> row \<Rightarrow> row" where
  "prepend q (Entry path item) = Entry (q @ path) item"
| "prepend q (Marker path e) = Marker (q @ path) e"

definition row_ok :: "row \<Rightarrow> bool" where
  "row_ok r \<longleftrightarrow>
     (\<forall>d \<in> set (ancestors r). \<not> should_skip_directory d)
     \<and> (\<forall>q item. r = Entry q item \<longrightarrow> visible item \<and> q \<noteq> [] \<and> last q = name item)"

definition entry_paths :: "row list \<Rightarrow> pystr list list" where
  "entry_paths rows = map path_of (filter is_entry rows)"

definition paths_ok :: "pystr list list \<Rightarrow> bool" where
  "paths_ok ps \<longleftrightarrow> distinct ps \<and> (\<forall>q \<in> set ps. q \<noteq> [] \<and> (\<forall>seg \<in> set q. 0x2F \<notin> set seg))"

section \<open>Example trees\<close>

text \<open>
  A root with an image, a dependency cache, a source directory and a directory that
  cannot be read.
\<close>

definition example_tree :: listing where
  "example_tree = Listed
     [File (str ''image.png'') (Some 2048) (Inr [0x89, 0x50]),
      Dir (str ''node_modules'') (Listed [File (str ''x.js'') (Some 1) (Inr [0x78])]),
      Dir (str ''src'') (Listed [File (str ''main.py'') (Some 8) (Inr [0x70, 0x72, 0x69, 0x6E, 0x74, 0x28, 0x31, 0x29])]),
      Dir (str ''locked'') (Failed (PermissionError (str ''[Errno 13] Permission denied'')))]"

text \<open>The siblings \<open>b.txt\<close>, \<open>A\<close> (a directory) and \<open>a.txt\<close>, in that order.\<close>

definition example_siblings :: "entry list" where
  "example_siblings =
     [File (str ''b.txt'') (Some 1) (Inr [0x62]),
      Dir (str ''A'') (Listed []),
      File (str ''a.txt'') (Some 1) (Inr [0x61])]"

text \<open>
  A root whose names differ in case: the directories \<open>lib\<close>, \<open>Docs\<close> and \<open>api\<close>, and
  the files \<open>b.py\<close>, \<open>C.py\<close> and \<open>a.py\<close>.
\<close>

definition example_mixed_case :: "entry list" where
  "example_mixed_case =
     [File (str ''b.py'') (Some 1) (Inr [0x32]),
      File (str ''C.py'') (Some 1) (Inr [0x33]),
      Dir (str ''lib'') (Listed [File (str ''Z.py'') (Some 1) (Inr [0x35]),
                                File (str ''y.py'') (Some 1) (Inr [0x34])]),
      File (str ''a.py'') (Some 1) (Inr [0x31]),
      Dir (str ''Docs'') (Listed [File (str ''README.md'') (Some 1) (Inr [0x30])]),
      Dir (str ''api'') (Listed [])]"

section \<open>Properties of the Sanitizer\<close>

lemma must_remove_iff: "must_remove c \<longleftrightarrow> c = 0 \<or> in_removed_class c"
  unfolding must_remove_def is_control_def in_removed_class_def by arith

lemma sanitize_filter: "sanitize_xml_content s = filter (\<lambda>c. \<not> must_remove c) s"
proof -
  have "filter (\<lambda>c. \<not> in_removed_class c) (removeAll 0 s) = filter (\<lambda>c. \<not> must_remove c) s"
    by (induction s) (auto simp: must_remove_iff)
  then show ?thesis
    by (simp add: sanitize_xml_content_def)
qed

text \<open>
  C7. The Sanitizer removes exactly the NUL character and the control characters other
  than tab, line feed and carriage return: its result is the input with those code points
  filtered out, every other code point kept in its place and order. It is idempotent.
\<close>

theorem sanitize_removes_exactly_controls:
  "sanitize_xml_content s = filter (\<lambda>c. \<not> must_remove c) s
   \<and> sanitize_xml_content (sanitize_xml_content s) = sanitize_xml_content s"
  by (simp add: sanitize_filter)

theorem sanitize_removes_exactly_controls_witness:
  "sanitize_xml_content [0x61, 0x00, 0x09, 0x1B, 0x0A, 0x7F, 0x85, 0x0D, 0xE9, 0x62]
     = [0x61, 0x09, 0x0A, 0x0D, 0xE9, 0x62]
   \<and> sanitize_xml_content (sanitize_xml_content [0x61, 0x00, 0x09, 0x1B, 0x0A, 0x7F, 0x85, 0x0D, 0xE9, 0x62])
     = [0x61, 0x09, 0x0A, 0x0D, 0xE9, 0x62]"
  using sanitize_removes_exactly_controls
    [of "[0x61, 0x00, 0x09, 0x1B, 0x0A, 0x7F, 0x85, 0x0D, 0xE9, 0x62]"]
  by (simp add: must_remove_def is_control_def sanitize_xml_content_def in_removed_class_def)

section \<open>Properties of the Classifier\<close>

lemma empty_not_in_tables: "[] \<notin> BINARY_EXTENSIONS" "[] \<notin> TEXT_EXTENSIONS"
  by (simp_all add: BINARY_EXTENSIONS_def TEXT_EXTENSIONS_def str_def)

lemma other_file_excluded:
  "lower (suffix n) \<notin> BINARY_EXTENSIONS \<Longrightarrow> lower (suffix n) \<notin> TEXT_EXTENSIONS \<Longrightarrow>
   \<not> (lower (suffix n) = [] \<and> lower n \<in> CONVENTIONAL_NAMES) \<Longrightarrow>
   should_include_file n st = False"
  by (simp add: should_include_file_def Let_def split: option.splits)

lemma dotfile_suffix:
  "suffix (str ''.gitignore'') = []" "suffix (str ''.dockerignore'') = []"
  "suffix (str ''.editorconfig'') = []" "suffix (str ''.env'') = []"
  by (simp_all add: suffix_def rfind_def str_def)

lemma dotfile_not_conventional:
  "lower (str ''.gitignore'') \<notin> CONVENTIONAL_NAMES" "lower (str ''.dockerignore'') \<notin> CONVENTIONAL_NAMES"
  "lower (str ''.editorconfig'') \<notin> CONVENTIONAL_NAMES" "lower (str ''.env'') \<notin> CONVENTIONAL_NAMES"
  by (simp_all add: CONVENTIONAL_NAMES_def lower_def lower_cp_def str_def)

lemma dotfile_in_text_table:
  "str ''.gitignore'' \<in> TEXT_EXTENSIONS" "str ''.dockerignore'' \<in> TEXT_EXTENSIONS"
  "str ''.editorconfig'' \<in> TEXT_EXTENSIONS" "str ''.env'' \<in> TEXT_EXTENSIONS"
  by (simp_all add: TEXT_EXTENSIONS_def)

lemma lower_empty: "lower [] = []" by (simp add: lower_def)

text \<open>
  C10. The dotfiles \<open>.gitignore\<close>, \<open>.dockerignore\<close>, \<open>.editorconfig\<close> and \<open>.env\<close> are
  excluded by \<open>should_include_file\<close>, whatever \<open>stat\<close> reports, although each of these
  strings is a member of \<open>TEXT_EXTENSIONS\<close>: the suffix of such a name is empty, since the
  leading dot belongs to the stem, and the lower-cased name is not a conventional
  extensionless name.
\<close>

theorem dotfiles_excluded:
  "(str ''.gitignore'' \<in> TEXT_EXTENSIONS \<and> suffix (str ''.gitignore'') = []
      \<and> lower (str ''.gitignore'') \<notin> CONVENTIONAL_NAMES
      \<and> should_include_file (str ''.gitignore'') st = False)
   \<and> (str ''.dockerignore'' \<in> TEXT_EXTENSIONS \<and> suffix (str ''.dockerignore'') = []
      \<and> lower (str ''.dockerignore'') \<notin> CONVENTIONAL_NAMES
      \<and> should_include_file (str ''.dockerignore'') st = False)
   \<and> (str ''.editorconfig'' \<in> TEXT_EXTENSIONS \<and> suffix (str ''.editorconfig'') = []
      \<and> lower (str ''.editorconfig'') \<notin> CONVENTIONAL_NAMES
      \<and> should_include_file (str ''.editorconfig'') st = False)
   \<and> (str ''.env'' \<in> TEXT_EXTENSIONS \<and> suffix (str ''.env'') = []
      \<and> lower (str ''.env'') \<notin> CONVENTIONAL_NAMES
      \<and> should_include_file (str ''.env'') st = False)"
  by (simp add: dotfile_suffix dotfile_not_conventional dotfile_in_text_table
        other_file_excluded lower_empty empty_not_in_tables)

theorem dotfiles_excluded_witness:
  "should_include_file (str ''.gitignore'') (Some 12) = False
   \<and> should_include_file (str ''.env'') (Some 12) = False"
  using dotfiles_excluded [of "Some 12"] by simp

text \<open>
  C1. A file with an unrecognised extension and an unconventional name should be included
  when it is at most 10 MiB large. The function returns \<open>False\<close> after the size test as
  well as inside it (line 107), so such a file is excluded whatever its size: here
  \<open>notes.xyz\<close> of 1024 bytes.
\<close>

theorem small_unknown_file_excluded:
  "lower (suffix (str ''notes.xyz'')) = str ''.xyz''
   \<and> str ''.xyz'' \<notin> BINARY_EXTENSIONS \<and> str ''.xyz'' \<notin> TEXT_EXTENSIONS
   \<and> lower (str ''notes.xyz'') \<notin> CONVENTIONAL_NAMES
   \<and> (1024 :: nat) \<le> 10 * 1024 * 1024
   \<and> should_include_file (str ''notes.xyz'') (Some 1024) = False"
  by (simp add: should_include_file_def suffix_def rfind_def lower_def lower_cp_def str_def
        BINARY_EXTENSIONS_def TEXT_EXTENSIONS_def CONVENTIONAL_NAMES_def)

lemma makefile_included: "should_include_file (str ''Makefile'') (Some 1024) = True"
  by (simp add: should_include_file_def suffix_def rfind_def lower_def lower_cp_def str_def
        BINARY_EXTENSIONS_def TEXT_EXTENSIONS_def CONVENTIONAL_NAMES_def)

section \<open>Properties of the Reader\<close>





text \<open>
  C9. latin-1 decodes every byte sequence, so on a file whose bytes can be read the loop
  never runs to its end: it returns inside, at utf-8, utf-8-sig or latin-1, and the Reader
  returns the decoded and sanitized text, not the value of the branch after the loop.
\<close>

theorem decode_failure_branch_unreachable:
  "decode LATIN_1 bs = Some (map unat bs)
   \<and> read_loop (Inr bs) encodings \<noteq> None
   \<and> (\<exists>enc text. enc \<in> {UTF_8, UTF_8_SIG, LATIN_1} \<and> decode enc bs = Some text
        \<and> read_loop (Inr bs) encodings = Some (sanitize_xml_content (universal_newlines text))
        \<and> read_file_content (Inr bs) = sanitize_xml_content (universal_newlines text))"
proof -
  have l: "decode LATIN_1 bs = Some (map unat bs)"
    by (simp add: latin1_decode_def)
  consider (a) t where "decode UTF_8 bs = Some t"
    | (b) t where "decode UTF_8 bs = None" "decode UTF_8_SIG bs = Some t"
    | (c) "decode UTF_8 bs = None" "decode UTF_8_SIG bs = None"
    by (cases "decode UTF_8 bs"; cases "decode UTF_8_SIG bs") auto
  then have "\<exists>enc text. enc \<in> {UTF_8, UTF_8_SIG, LATIN_1} \<and> decode enc bs = Some text
        \<and> read_loop (Inr bs) encodings = Some (sanitize_xml_content (universal_newlines text))"
  proof cases
    case a
    then have "read_loop (Inr bs) encodings = Some (sanitize_xml_content (universal_newlines t))"
      by (simp add: encodings_def open_read_def)
    with a show ?thesis by blast
  next
    case b
    then have "read_loop (Inr bs) encodings = Some (sanitize_xml_content (universal_newlines t))"
      by (simp add: encodings_def open_read_def)
    with b show ?thesis by blast
  next
    case c
    then have "read_loop (Inr bs) encodings = Some (sanitize_xml_content (universal_newlines (map unat bs)))"
      using l by (simp add: encodings_def open_read_def)
    with l show ?thesis by blast
  qed
  then obtain enc t where *: "enc \<in> {UTF_8, UTF_8_SIG, LATIN_1}" "decode enc bs = Some t"
        "read_loop (Inr bs) encodings = Some (sanitize_xml_content (universal_newlines t))"
    by blast
  then have "read_file_content (Inr bs) = sanitize_xml_content (universal_newlines t)"
    by (simp add: read_file_content_def)
  with * l show ?thesis by blast
qed

theorem decode_failure_branch_unreachable_witness:
  "read_loop (Inr [0xFF, 0x41]) encodings = Some [0xFF, 0x41]
   \<and> read_file_content (Inr [0xFF, 0x41]) = [0xFF, 0x41]"
proof -
  have "decode UTF_8 [0xFF, 0x41] = None" "decode UTF_8_SIG [0xFF, 0x41] = None"
    by (simp_all add: utf8_sig_decode_def)
  moreover have "sanitize_xml_content (universal_newlines (map unat [0xFF, 0x41 :: byte])) = [0xFF, 0x41]"
    by (simp add: sanitize_xml_content_def in_removed_class_def)
  ultimately show ?thesis
    using decode_failure_branch_unreachable [of "[0xFF, 0x41]"]
    by (auto simp: latin1_decode_def)
qed

section \<open>Properties of the Tree Builder and the Content Collector\<close>

declare generate_tree_structure.simps [simp del] tree_loop.simps [simp del]

declare collect_file_contents.simps [simp del] collect_loop.simps [simp del]

lemma gts_Listed:
  "generate_tree_structure (Listed es) p b ol =
     tree_loop p (length (filter visible (sorted_items es))) 0 (filter visible (sorted_items es)) (lines_of ol)"
  by (subst generate_tree_structure.simps) (simp add: lines_of_def visible_def [abs_def] Let_def)

lemma gts_Failed:
  "generate_tree_structure (Failed e) p b ol = lines_of ol @ [p @ marker_line e]"
  by (subst generate_tree_structure.simps) (simp add: lines_of_def marker_line_def split: exc.splits)

lemma tree_loop_Nil: "tree_loop p n i [] out = out"
  by (simp add: tree_loop.simps)

lemma tree_loop_Dir:
  "tree_loop p n i (Dir d sub # rest) out =
     tree_loop p n (i + 1) rest
       (generate_tree_structure sub (p @ extension_of n i) (int i = int n - 1)
          (Some (out @ [p @ connector_of n i @ d @ str ''/''])))"
  by (subst tree_loop.simps) (simp add: connector_of_def extension_of_def)

lemma tree_loop_File:
  "tree_loop p n i (File f st data # rest) out =
     tree_loop p n (i + 1) rest (out @ [p @ connector_of n i @ f])"
  by (subst tree_loop.simps) (simp add: connector_of_def)

lemma tree_loop_Special:
  "tree_loop p n i (Special f # rest) out =
     tree_loop p n (i + 1) rest (out @ [p @ connector_of n i @ f])"
  by (subst tree_loop.simps) (simp add: connector_of_def)

lemma lines_of_simps [simp]: "lines_of None = []" "lines_of (Some out) = out"
  by (simp_all add: lines_of_def)

lemma tree_acc_aux:
  fixes d1 :: "pystr list option" and d2 :: "pystr list"
  shows "\<forall>ol. generate_tree_structure l p b ol = lines_of ol @ generate_tree_structure l p b None"
    and "\<forall>out. tree_loop p' n i items out = out @ tree_loop p' n i items []"
proof (induct l p b d1 and p' n i items d2 rule: generate_tree_structure_tree_loop.induct)
  case (1 root_path prefix is_last output_lines)
  show ?case
  proof (cases root_path)
    case (Listed es)
    have loop: "\<forall>out. tree_loop prefix (length (filter visible (sorted_items es))) 0
            (filter visible (sorted_items es)) out
          = out @ tree_loop prefix (length (filter visible (sorted_items es))) 0
            (filter visible (sorted_items es)) []"
      using 1 [OF refl Listed refl refl] unfolding visible_def [abs_def] .
    show ?thesis
    proof
      fix ol
      show "generate_tree_structure root_path prefix is_last ol
            = lines_of ol @ generate_tree_structure root_path prefix is_last None"
        unfolding Listed gts_Listed
        by (subst loop [rule_format]) simp
    qed
  next
    case (Failed e)
    show ?thesis
      unfolding Failed gts_Failed by simp
  qed
next
  case (2 prefix n index output_lines)
  show ?case unfolding tree_loop_Nil by simp
next
  case (3 prefix n index item rest output_lines)
  have rest: "\<forall>out. tree_loop prefix n (index + 1) rest out = out @ tree_loop prefix n (index + 1) rest []"
    using 3(2) [OF refl refl refl refl] .
  show ?case
  proof (cases item)
    case (Dir d sub)
    have sub: "\<forall>ol. generate_tree_structure sub (prefix @ extension_of n index) (int index = int n - 1) ol
        = lines_of ol @ generate_tree_structure sub (prefix @ extension_of n index) (int index = int n - 1) None"
      using 3(1) [OF refl refl refl Dir refl] unfolding extension_of_def .
    show ?thesis
    proof
      fix out
      show "tree_loop prefix n index (item # rest) out = out @ tree_loop prefix n index (item # rest) []"
        unfolding Dir tree_loop_Dir
        by (subst rest [rule_format], subst sub [rule_format], subst (2) rest [rule_format],
            subst (2) sub [rule_format]) simp
    qed
  next
    case (File f st data)
    show ?thesis
    proof
      fix out
      show "tree_loop prefix n index (item # rest) out = out @ tree_loop prefix n index (item # rest) []"
        unfolding File tree_loop_File
        by (subst rest [rule_format], subst (2) rest [rule_format]) simp
    qed
  next
    case (Special f)
    show ?thesis
    proof
      fix out
      show "tree_loop prefix n index (item # rest) out = out @ tree_loop prefix n index (item # rest) []"
        unfolding Special tree_loop_Special
        by (subst rest [rule_format], subst (2) rest [rule_format]) simp
    qed
  qed
qed

lemma gts_acc: "generate_tree_structure l p b (Some out) = out @ generate_tree_structure l p b None"
proof -
  have "generate_tree_structure l p b (Some out) = lines_of (Some out) @ generate_tree_structure l p b None"
    by (rule tree_acc_aux(1) [rule_format])
  then show ?thesis
    unfolding lines_of_simps .
qed

lemma tree_loop_acc: "tree_loop p n i items out = out @ tree_loop p n i items []"
  by (rule tree_acc_aux(2) [rule_format])

lemma gts_is_last: "generate_tree_structure l p b ol = generate_tree_structure l p b' ol"
  by (cases l) (simp_all add: gts_Listed gts_Failed)

lemma tree_loop_Cons:
  "tree_loop p n i (item # rest) [] =
     (p @ connector_of n i @ label (Entry path item))
       # (case item of Dir d sub \<Rightarrow> generate_tree_structure sub (p @ extension_of n i) b None | _ \<Rightarrow> [])
       @ tree_loop p n (i + 1) rest []"
proof (cases item)
  case (Dir d sub)
  show ?thesis
    unfolding Dir tree_loop_Dir
    by (subst tree_loop_acc, subst gts_acc, subst gts_is_last [of _ _ _ _ b]) simp
next
  case (File f st data)
  show ?thesis unfolding File tree_loop_File by (subst tree_loop_acc) simp
next
  case (Special f)
  show ?thesis unfolding Special tree_loop_Special by (subst tree_loop_acc) simp
qed

lemma renders_deeper:
  assumes "renders (p @ ext) (Suc k) line r" and "ext \<in> TOKENS"
  shows "renders p k line r"
proof -
  from assms(1) obtain toks where t: "set toks \<subseteq> TOKENS" "length toks + Suc k = depth r"
      "line = (p @ ext) @ concat toks @ label r"
    unfolding renders_def by blast
  have "set (ext # toks) \<subseteq> TOKENS" "length (ext # toks) + k = depth r"
       "line = p @ concat (ext # toks) @ label r"
    using t assms(2) by simp_all
  then show ?thesis
    unfolding renders_def by blast
qed

lemma connector_in_TOKENS: "connector_of n i \<in> TOKENS"
  by (simp add: connector_of_def TOKENS_def)

lemma extension_in_TOKENS: "extension_of n i \<in> TOKENS"
  by (simp add: extension_of_def TOKENS_def)

lemma renders_entry:
  "renders p (length path) (p @ connector_of n i @ label (Entry path item)) (Entry (path @ [name item]) item)"
proof -
  have "set [connector_of n i] \<subseteq> TOKENS"
    by (simp add: connector_in_TOKENS)
  moreover have "length [connector_of n i] + length path = depth (Entry (path @ [name item]) item)"
    by simp
  moreover have "p @ connector_of n i @ label (Entry path item)
      = p @ concat [connector_of n i] @ label (Entry (path @ [name item]) item)"
    by simp
  ultimately show ?thesis
    unfolding renders_def by blast
qed

lemma renders_marker: "renders p (length path) (p @ marker_line e) (Marker path e)"
proof -
  have "set [] \<subseteq> TOKENS \<and> length ([] :: pystr list) + length path = depth (Marker path e)
        \<and> p @ marker_line e = p @ concat [] @ label (Marker path e)"
    by simp
  then show ?thesis
    unfolding renders_def by blast
qed

lemma tree_walk_aux:
  shows "\<forall>p b. list_all2 (renders p (length path)) (generate_tree_structure l p b None) (walk path l)"
    and "\<forall>p n i. list_all2 (renders p (length path')) (tree_loop p n i items []) (walk_items path' items)"
proof (induct path l and path' items rule: walk_walk_items.induct)
  case (1 path e)
  show ?case
    by (simp add: gts_Failed renders_marker)
next
  case (2 path es)
  then show ?case
    by (simp add: gts_Listed)
next
  case (3 path)
  show ?case
    by (simp add: tree_loop_Nil)
next
  case (4 path item rest)
  show ?case
  proof (intro allI)
    fix p n i
    have rest: "list_all2 (renders p (length path)) (tree_loop p n (i + 1) rest []) (walk_items path rest)"
      using 4(2) by blast
    have sub: "list_all2 (renders p (length path))
        (case item of Dir d sub \<Rightarrow> generate_tree_structure sub (p @ extension_of n i) True None | _ \<Rightarrow> [])
        (case item of Dir d sub \<Rightarrow> walk (path @ [d]) sub | _ \<Rightarrow> [])"
    proof (cases item)
      case (Dir d sub)
      have "list_all2 (renders (p @ extension_of n i) (length (path @ [d])))
              (generate_tree_structure sub (p @ extension_of n i) True None) (walk (path @ [d]) sub)"
        using 4(1) [OF Dir] by blast
      then have "list_all2 (renders p (length path))
              (generate_tree_structure sub (p @ extension_of n i) True None) (walk (path @ [d]) sub)"
        by (rule list_all2_mono) (simp add: renders_deeper extension_in_TOKENS)
      then show ?thesis
        by (simp add: Dir)
    qed simp_all
    show "list_all2 (renders p (length path)) (tree_loop p n i (item # rest) []) (walk_items path (item # rest))"
      unfolding tree_loop_Cons [of p n i item rest path True] walk_items.simps
      using rest sub by (simp add: list_all2_appendI renders_entry del: label.simps)
  qed
qed

lemma tree_walk:
  "list_all2 (renders p (length path)) (generate_tree_structure l p b None) (walk path l)"
  using tree_walk_aux(1) by blast

lemma collect_Listed: "collect_file_contents (Listed es) rel = collect_loop rel (sorted_items es) []"
  by (subst collect_file_contents.simps) simp

lemma collect_Failed: "collect_file_contents (Failed e) rel = []"
  by (subst collect_file_contents.simps) (simp split: exc.splits)

lemma collect_loop_Nil: "collect_loop rel [] fc = fc"
  by (simp add: collect_loop.simps)

lemma collect_loop_skip:
  "\<not> visible item \<Longrightarrow> collect_loop rel (item # rest) fc = collect_loop rel rest fc"
  by (subst collect_loop.simps) (simp add: visible_def)

lemma collect_loop_File:
  "collect_loop rel (File f st data # rest) fc =
     collect_loop rel rest
       (fc @ (if should_include_file f st then [(str_path (rel @ [f]), read_file_content data)] else []))"
  by (subst collect_loop.simps) simp

lemma collect_loop_Dir:
  "visible (Dir d sub) \<Longrightarrow>
   collect_loop rel (Dir d sub # rest) fc =
     collect_loop rel rest (fc @ collect_file_contents sub (rel @ [d]))"
  by (subst collect_loop.simps) (simp add: visible_def)

lemma collect_loop_Special: "collect_loop rel (Special f # rest) fc = collect_loop rel rest fc"
  by (subst collect_loop.simps) simp

lemma visible_not_dir [simp]: "visible (File f st data)" "visible (Special f)"
  by (simp_all add: visible_def)

lemma collect_loop_step:
  "collect_loop rel (item # rest) fc = collect_loop rel rest (fc @ item_contents rel item)"
proof (cases "visible item")
  case False
  then show ?thesis
    by (simp add: collect_loop_skip item_contents_def)
next
  case True
  then show ?thesis
    by (cases item)
       (simp_all add: item_contents_def collect_loop_File collect_loop_Dir collect_loop_Special)
qed

lemma collect_loop_concat:
  "collect_loop rel items fc = fc @ concat (map (item_contents rel) items)"
  by (induction items arbitrary: fc) (simp_all add: collect_loop_Nil collect_loop_step)

lemma item_contents_invisible: "\<not> visible item \<Longrightarrow> item_contents rel item = []"
  by (simp add: item_contents_def)

lemma concat_item_contents_filter:
  "concat (map (item_contents rel) (filter visible items)) = concat (map (item_contents rel) items)"
  by (induction items) (simp_all add: item_contents_invisible)

lemma collect_walk_aux:
  shows "collect_file_contents l path = concat (map collected (walk path l))"
    and "(\<forall>x \<in> set items. visible x) \<longrightarrow>
         concat (map (item_contents path') items) = concat (map collected (walk_items path' items))"
proof (induct path l and path' items rule: walk_walk_items.induct)
  case (1 path e)
  show ?case by (simp add: collect_Failed)
next
  case (2 path es)
  have "collect_file_contents (Listed es) path = concat (map (item_contents path) (filter visible (sorted_items es)))"
    by (simp add: collect_Listed collect_loop_concat concat_item_contents_filter)
  then show ?case
    using 2 by simp
next
  case (3 path)
  show ?case by simp
next
  case (4 path item rest)
  show ?case
  proof
    assume vis: "\<forall>x \<in> set (item # rest). visible x"
    then have rest: "concat (map (item_contents path) rest) = concat (map collected (walk_items path rest))"
      using 4(2) by simp
    have item: "item_contents path item
        = concat (map collected (Entry (path @ [name item]) item
                    # (case item of Dir d sub \<Rightarrow> walk (path @ [d]) sub | _ \<Rightarrow> [])))"
    proof (cases item)
      case (Dir d sub)
      then show ?thesis
        using vis 4(1) [OF Dir] by (simp add: item_contents_def)
    qed (simp_all add: item_contents_def)
    show "concat (map (item_contents path) (item # rest))
          = concat (map collected (walk_items path (item # rest)))"
      using rest item by simp
  qed
qed

lemma collect_walk: "collect_file_contents l rel = concat (map collected (walk rel l))"
  by (rule collect_walk_aux(1))

lemma filter_visible_drop:
  assumes "\<not> visible e"
  shows "filter visible (sorted_items (xs @ e # ys)) = filter visible (sorted_items (xs @ ys))"
proof -
  have "filter visible (sorted_items (xs @ e # ys)) = sort_key item_key (filter visible (xs @ e # ys))"
    by (simp add: sorted_items_def filter_sort)
  also have "\<dots> = sort_key item_key (filter visible (xs @ ys))"
    using assms by simp
  also have "\<dots> = filter visible (sorted_items (xs @ ys))"
    by (simp add: sorted_items_def filter_sort)
  finally show ?thesis .
qed

lemma skipped_dir_invisible: "should_skip_directory d \<Longrightarrow> \<not> visible (Dir d sub)"
  by (simp add: visible_def)

lemma gts_drop_skipped:
  "should_skip_directory d \<Longrightarrow>
   generate_tree_structure (Listed (xs @ Dir d sub # ys)) p b ol
     = generate_tree_structure (Listed (xs @ ys)) p b ol"
  by (simp add: gts_Listed filter_visible_drop skipped_dir_invisible)

lemma collect_Listed_visible:
  "collect_file_contents (Listed es) rel
     = concat (map (item_contents rel) (filter visible (sorted_items es)))"
  by (simp add: collect_Listed collect_loop_concat concat_item_contents_filter)

lemma collect_drop_skipped:
  "should_skip_directory d \<Longrightarrow>
   collect_file_contents (Listed (xs @ Dir d sub # ys)) rel
     = collect_file_contents (Listed (xs @ ys)) rel"
  by (simp add: collect_Listed_visible filter_visible_drop skipped_dir_invisible)

lemma startswith_dot: "startswith d (str ''.'') \<longleftrightarrow> (\<exists>r. d = 0x2E # r)"
  by (cases d) (auto simp: startswith_def str_def)

lemma prepend_prepend: "prepend q (prepend q' r) = prepend (q @ q') r"
  by (cases r) simp_all

lemma walk_shift_aux:
  fixes path path' :: "pystr list"
  shows "\<forall>q. walk q l = map (prepend q) (walk [] l)"
    and "\<forall>q. walk_items q items = map (prepend q) (walk_items [] items)"
proof (induct path l and path' items rule: walk_walk_items.induct)
  case (1 path e)
  show ?case by simp
next
  case (2 path es)
  show ?case
  proof
    fix q
    show "walk q (Listed es) = map (prepend q) (walk [] (Listed es))"
      unfolding walk.simps by (rule 2 [rule_format])
  qed
next
  case (3 path)
  show ?case by simp
next
  case (4 path item rest)
  have rest: "\<And>q. walk_items q rest = map (prepend q) (walk_items [] rest)"
    by (rule 4(2) [rule_format])
  show ?case
  proof
    fix q
    show "walk_items q (item # rest) = map (prepend q) (walk_items [] (item # rest))"
    proof (cases item)
      case (Dir d sub)
      have sub: "\<And>q. walk q sub = map (prepend q) (walk [] sub)"
        by (rule 4(1) [OF Dir, rule_format])
      have "walk (q @ [d]) sub = map (prepend q) (walk [d] sub)"
        unfolding sub [of "q @ [d]"] sub [of "[d]"] by (simp add: prepend_prepend)
      then show ?thesis
        unfolding Dir walk_items.simps rest [of q] by simp
    next
      case (File f st data)
      show ?thesis
        unfolding File walk_items.simps rest [of q] by simp
    next
      case (Special f)
      show ?thesis
        unfolding Special walk_items.simps rest [of q] by simp
    qed
  qed
qed

lemma walk_shift: "walk q l = map (prepend q) (walk [] l)"
  by (rule walk_shift_aux(1) [rule_format])

lemma row_ok_prepend:
  assumes "row_ok r" and "\<not> should_skip_directory d"
  shows "row_ok (prepend [d] r)"
proof (cases r)
  case (Entry q item)
  then have "q \<noteq> []" "visible item" "last q = name item" "\<forall>x \<in> set (butlast q). \<not> should_skip_directory x"
    using assms(1) by (simp_all add: row_ok_def)
  then show ?thesis
    using assms(2) by (simp add: row_ok_def Entry)
next
  case (Marker q e)
  then show ?thesis
    using assms by (simp add: row_ok_def)
qed

lemma row_ok_entry: "visible item \<Longrightarrow> row_ok (Entry [name item] item)"
  by (simp add: row_ok_def)

lemma walk_row_ok_aux:
  fixes path path' :: "pystr list"
  shows "\<forall>r \<in> set (walk [] l). row_ok r"
    and "(\<forall>x \<in> set items. visible x) \<longrightarrow> (\<forall>r \<in> set (walk_items [] items). row_ok r)"
proof (induct path l and path' items rule: walk_walk_items.induct)
  case (1 path e)
  show ?case by (simp add: row_ok_def)
next
  case (2 path es)
  then show ?case by simp
next
  case (3 path)
  show ?case by simp
next
  case (4 path item rest)
  show ?case
  proof
    assume vis: "\<forall>x \<in> set (item # rest). visible x"
    then have rest: "\<forall>r \<in> set (walk_items [] rest). row_ok r"
      using 4(2) by simp
    have own: "row_ok (Entry [name item] item)"
      using vis by (simp add: row_ok_entry)
    have sub: "\<forall>r \<in> set (case item of Dir d sub \<Rightarrow> walk [d] sub | _ \<Rightarrow> []). row_ok r"
    proof (cases item)
      case (Dir d sub)
      have "\<not> should_skip_directory d"
        using vis by (simp add: Dir visible_def)
      moreover have "\<forall>r \<in> set (walk [] sub). row_ok r"
        by (rule 4(1) [OF Dir])
      ultimately have "\<forall>r \<in> set (map (prepend [d]) (walk [] sub)). row_ok r"
        by (simp add: row_ok_prepend)
      then show ?thesis
        unfolding Dir entry.case walk_shift [of "[d]" sub] .
    qed simp_all
    show "\<forall>r \<in> set (walk_items [] (item # rest)). row_ok r"
      using own sub rest by auto
  qed
qed

lemma walk_row_ok: "r \<in> set (walk [] l) \<Longrightarrow> row_ok r"
  using walk_row_ok_aux(1) by blast

lemma tree_loop_mem:
  "item \<in> set items \<Longrightarrow>
   \<exists>j. p @ connector_of n j @ label (Entry [] item) \<in> set (tree_loop p n i items [])
     \<and> (\<forall>d sub. item = Dir d sub \<longrightarrow>
           set (generate_tree_structure sub (p @ extension_of n j) b None) \<subseteq> set (tree_loop p n i items []))"
proof (induction items arbitrary: i)
  case Nil
  then show ?case by simp
next
  case (Cons x xs)
  show ?case
  proof (cases "item = x")
    case True
    have "p @ connector_of n i @ label (Entry [] item) \<in> set (tree_loop p n i (x # xs) [])
     \<and> (\<forall>d sub. item = Dir d sub \<longrightarrow>
           set (generate_tree_structure sub (p @ extension_of n i) b None) \<subseteq> set (tree_loop p n i (x # xs) []))"
    proof (intro conjI allI impI)
      show "p @ connector_of n i @ label (Entry [] item) \<in> set (tree_loop p n i (x # xs) [])"
        unfolding tree_loop_Cons [of p n i x xs "[]" b] True by simp
    next
      fix d sub
      assume "item = Dir d sub"
      then have x: "x = Dir d sub"
        using True by simp
      show "set (generate_tree_structure sub (p @ extension_of n i) b None) \<subseteq> set (tree_loop p n i (x # xs) [])"
        unfolding x tree_loop_Cons [of p n i "Dir d sub" xs "[]" b] by (simp add: subset_iff)
    qed
    then show ?thesis by blast
  next
    case False
    then have "item \<in> set xs"
      using Cons.prems by simp
    from Cons.IH [OF this, of "i + 1"] obtain j where
      j: "p @ connector_of n j @ label (Entry [] item) \<in> set (tree_loop p n (i + 1) xs [])"
         "\<forall>d sub. item = Dir d sub \<longrightarrow>
           set (generate_tree_structure sub (p @ extension_of n j) b None) \<subseteq> set (tree_loop p n (i + 1) xs [])"
      by blast
    have mem: "\<And>y. y \<in> set (tree_loop p n (i + 1) xs []) \<Longrightarrow> y \<in> set (tree_loop p n i (x # xs) [])"
      unfolding tree_loop_Cons [of p n i x xs "[]" b] by simp
    have sub: "set (tree_loop p n (i + 1) xs []) \<subseteq> set (tree_loop p n i (x # xs) [])"
      by (rule subsetI) (rule mem)
    show ?thesis
    proof (intro exI conjI allI impI)
      show "p @ connector_of n j @ label (Entry [] item) \<in> set (tree_loop p n i (x # xs) [])"
        using j(1) by (rule mem)
    next
      fix d sub'
      assume it: "item = Dir d sub'"
      have "set (generate_tree_structure sub' (p @ extension_of n j) b None)
          \<subseteq> set (tree_loop p n (i + 1) xs [])"
        by (rule j(2) [rule_format, OF it])
      then show "set (generate_tree_structure sub' (p @ extension_of n j) b None)
          \<subseteq> set (tree_loop p n i (x # xs) [])"
        using sub by (rule subset_trans)
    qed
  qed
qed

lemma example_tree_lines:
  "generate_tree_structure example_tree [] True None =
     [TREE_BRANCH @ str ''locked/'',
      TREE_VERTICAL @ str ''[Permission Denied]'',
      TREE_BRANCH @ str ''src/'',
      TREE_VERTICAL @ TREE_LAST @ str ''main.py'',
      TREE_LAST @ str ''image.png'']"
  by (simp add: example_tree_def gts_Listed gts_Failed tree_loop_Nil tree_loop_Dir tree_loop_File
        connector_of_def extension_of_def marker_line_def visible_def should_skip_directory_def
        startswith_def SKIP_DIRECTORIES_def str_def sorted_items_def item_key_def lower_def lower_cp_def)


lemma walk_items_concat:
  "walk_items path items =
     concat (map (\<lambda>item. Entry (path @ [name item]) item
                    # (case item of Dir d sub \<Rightarrow> walk (path @ [d]) sub | _ \<Rightarrow> [])) items)"
  by (induction items) simp_all

lemma collect_loop_failed_dir:
  "collect_loop rel (Dir d (Failed e) # rest) fc = collect_loop rel rest fc"
  by (simp add: collect_loop_step item_contents_def collect_Failed)

lemma tree_loop_failed_dir:
  "tree_loop p n i (Dir d (Failed e) # rest) out =
     tree_loop p n (i + 1) rest
       (out @ [p @ connector_of n i @ d @ str ''/'', p @ extension_of n i @ marker_line e])"
  by (simp add: tree_loop_Dir gts_Failed)

text \<open>
  C4. When enumerating a directory raises, the Tree Builder appends exactly one marker
  line, \<open>[Permission Denied]\<close> for a permission error and \<open>[Error: ...]\<close> with the
  exception's text for any other, and returns; inside its parent the failed directory
  yields its own line and the marker, and the loop goes on with the next sibling. The
  Content Collector returns the empty list for such a directory, and inside its parent
  the directory adds nothing. Both return a value on every input: no exception leaves
  either function.
\<close>

theorem enumeration_errors_marked_or_dropped:
  "generate_tree_structure (Failed (PermissionError m)) p b None = [p @ str ''[Permission Denied]'']
   \<and> generate_tree_structure (Failed (OtherError m)) p b None = [p @ str ''[Error: '' @ m @ str '']'']
   \<and> generate_tree_structure (Failed e) p b (Some out) = out @ [p @ marker_line e]
   \<and> tree_loop p n i (Dir d (Failed e) # rest) out =
        tree_loop p n (i + 1) rest
          (out @ [p @ connector_of n i @ d @ str ''/'', p @ extension_of n i @ marker_line e])
   \<and> collect_file_contents (Failed e) rel = []
   \<and> collect_loop rel (Dir d (Failed e) # rest) fc = collect_loop rel rest fc"
  by (simp add: gts_Failed marker_line_def tree_loop_failed_dir collect_Failed collect_loop_failed_dir)

theorem enumeration_errors_marked_or_dropped_witness:
  "generate_tree_structure (Failed (PermissionError (str ''denied''))) (str ''  '') True None
     = [str ''  [Permission Denied]'']
   \<and> generate_tree_structure (Failed (OtherError (str ''denied''))) (str ''  '') True None
     = [str ''  [Error: denied]'']
   \<and> tree_loop [] 1 0 [Dir (str ''locked'') (Failed (PermissionError (str ''denied'')))] []
     = [TREE_LAST @ str ''locked/'', TREE_SPACE @ str ''[Permission Denied]'']
   \<and> collect_file_contents (Failed (PermissionError (str ''denied''))) [] = []
   \<and> collect_loop [] [Dir (str ''locked'') (Failed (PermissionError (str ''denied'')))] [] = []"
  using enumeration_errors_marked_or_dropped
    [of "str ''denied''" "str ''  ''" True "PermissionError (str ''denied'')" "[]" ]
    enumeration_errors_marked_or_dropped
    [of "str ''denied''" "[]" True "PermissionError (str ''denied'')" "[]" 1 0 "str ''locked''" "[]" "[]" "[]"]
  by (simp add: str_def marker_line_def connector_of_def extension_of_def tree_loop_Nil collect_loop_Nil)

lemma files_listed:
  assumes "e \<in> set es" and "\<not> is_dir e"
  shows "\<exists>c \<in> {TREE_BRANCH, TREE_LAST}. p @ c @ name e \<in> set (generate_tree_structure (Listed es) p b None)"
proof -
  have "e \<in> set (filter visible (sorted_items es))"
    using assms by (simp add: visible_def sorted_items_def)
  from tree_loop_mem [OF this, of p "length (filter visible (sorted_items es))" 0 b]
  obtain j where "p @ connector_of (length (filter visible (sorted_items es))) j @ label (Entry [] e)
      \<in> set (generate_tree_structure (Listed es) p b None)"
    unfolding gts_Listed lines_of_simps by blast
  moreover have "label (Entry [] e) = name e"
    using assms(2) by simp
  moreover have "connector_of (length (filter visible (sorted_items es))) j \<in> {TREE_BRANCH, TREE_LAST}"
    by (simp add: connector_of_def)
  ultimately show ?thesis
    by metis
qed

lemma directories_listed:
  assumes "Dir d sub \<in> set es" and "\<not> should_skip_directory d"
  shows "\<exists>c \<in> {TREE_BRANCH, TREE_LAST}. \<exists>x \<in> {TREE_VERTICAL, TREE_SPACE}.
           p @ c @ d @ str ''/'' \<in> set (generate_tree_structure (Listed es) p b None)
           \<and> set (generate_tree_structure sub (p @ x) b None)
               \<subseteq> set (generate_tree_structure (Listed es) p b None)"
proof -
  have "Dir d sub \<in> set (filter visible (sorted_items es))"
    using assms by (simp add: visible_def sorted_items_def)
  from tree_loop_mem [OF this, of p "length (filter visible (sorted_items es))" 0 b]
  obtain j where j: "p @ connector_of (length (filter visible (sorted_items es))) j @ label (Entry [] (Dir d sub))
      \<in> set (generate_tree_structure (Listed es) p b None)"
     "set (generate_tree_structure sub (p @ extension_of (length (filter visible (sorted_items es))) j) b None)
         \<subseteq> set (generate_tree_structure (Listed es) p b None)"
    unfolding gts_Listed lines_of_simps by blast
  have "connector_of (length (filter visible (sorted_items es))) j \<in> {TREE_BRANCH, TREE_LAST}"
       "extension_of (length (filter visible (sorted_items es))) j \<in> {TREE_VERTICAL, TREE_SPACE}"
    by (simp_all add: connector_of_def extension_of_def)
  moreover have "label (Entry [] (Dir d sub)) = d @ str ''/''"
    by simp
  ultimately show ?thesis
    using j by metis
qed

text \<open>
  C8, as stated: the tree covers every descendant that is not under a skipped directory.
  A skipped directory directly below the root is such a descendant, and line 123 removes
  it before any line is written: a root that holds only \<open>node_modules\<close> has an empty
  tree, and the tree of \<open>example_tree\<close> has no line for its \<open>node_modules\<close>.
\<close>

theorem tree_covers_skipped_directory_counterexample:
  "should_skip_directory (str ''node_modules'')
   \<and> generate_tree_structure
         (Listed [Dir (str ''node_modules'') (Listed [File (str ''x.js'') (Some 1) (Inr [0x78])])])
         [] True None = []
   \<and> generate_tree_structure example_tree [] True None =
       [TREE_BRANCH @ str ''locked/'',
        TREE_VERTICAL @ str ''[Permission Denied]'',
        TREE_BRANCH @ str ''src/'',
        TREE_VERTICAL @ TREE_LAST @ str ''main.py'',
        TREE_LAST @ str ''image.png'']"
proof (intro conjI)
  show skip: "should_skip_directory (str ''node_modules'')"
    by (simp add: should_skip_directory_def SKIP_DIRECTORIES_def)
  show "generate_tree_structure
         (Listed [Dir (str ''node_modules'') (Listed [File (str ''x.js'') (Some 1) (Inr [0x78])])])
         [] True None = []"
    using skip by (simp add: gts_Listed sorted_items_def visible_def tree_loop_Nil)
  show "generate_tree_structure example_tree [] True None =
       [TREE_BRANCH @ str ''locked/'',
        TREE_VERTICAL @ str ''[Permission Denied]'',
        TREE_BRANCH @ str ''src/'',
        TREE_VERTICAL @ TREE_LAST @ str ''main.py'',
        TREE_LAST @ str ''image.png'']"
    by (rule example_tree_lines)
qed

text \<open>
  C8, amended. The lines of the tree are, one for one and in order, the rows of \<open>walk\<close>:
  the depth-first pre-order of the descendants that are neither a skipped directory nor
  under one. Every entry of a listed directory that is not a directory has its line,
  whatever \<open>should_include_file\<close> says of it; every directory that is not skipped has
  its line and the lines of its own tree; a skipped directory has no line, and the tree
  is what it would be were that directory absent.
\<close>

theorem tree_lists_every_unskipped_descendant:
  "list_all2 (renders p 0) (generate_tree_structure l p b None) (walk [] l)
   \<and> walk path (Listed es) =
       concat (map (\<lambda>item. Entry (path @ [name item]) item
                      # (case item of Dir d sub \<Rightarrow> walk (path @ [d]) sub | _ \<Rightarrow> []))
                 (filter visible (sorted_items es)))
   \<and> (\<forall>e \<in> set es. \<not> is_dir e \<longrightarrow>
         (\<exists>c \<in> {TREE_BRANCH, TREE_LAST}.
            p @ c @ name e \<in> set (generate_tree_structure (Listed es) p b None)))
   \<and> (\<forall>d sub. Dir d sub \<in> set es \<and> \<not> should_skip_directory d \<longrightarrow>
         (\<exists>c \<in> {TREE_BRANCH, TREE_LAST}. \<exists>x \<in> {TREE_VERTICAL, TREE_SPACE}.
            p @ c @ d @ str ''/'' \<in> set (generate_tree_structure (Listed es) p b None)
            \<and> set (generate_tree_structure sub (p @ x) b None)
                \<subseteq> set (generate_tree_structure (Listed es) p b None)))
   \<and> (should_skip_directory d' \<longrightarrow>
         generate_tree_structure (Listed (xs @ Dir d' sub' # ys)) p b None
           = generate_tree_structure (Listed (xs @ ys)) p b None)"
proof (intro conjI ballI allI impI)
  show "list_all2 (renders p 0) (generate_tree_structure l p b None) (walk [] l)"
    using tree_walk [of p "[]" l b] by simp
next
  show "walk path (Listed es) =
       concat (map (\<lambda>item. Entry (path @ [name item]) item
                      # (case item of Dir d sub \<Rightarrow> walk (path @ [d]) sub | _ \<Rightarrow> []))
                 (filter visible (sorted_items es)))"
    by (simp only: walk.simps walk_items_concat)
next
  fix e assume "e \<in> set es" "\<not> is_dir e"
  then show "\<exists>c \<in> {TREE_BRANCH, TREE_LAST}.
            p @ c @ name e \<in> set (generate_tree_structure (Listed es) p b None)"
    by (rule files_listed)
next
  fix d sub assume "Dir d sub \<in> set es \<and> \<not> should_skip_directory d"
  then show "\<exists>c \<in> {TREE_BRANCH, TREE_LAST}. \<exists>x \<in> {TREE_VERTICAL, TREE_SPACE}.
            p @ c @ d @ str ''/'' \<in> set (generate_tree_structure (Listed es) p b None)
            \<and> set (generate_tree_structure sub (p @ x) b None)
                \<subseteq> set (generate_tree_structure (Listed es) p b None)"
    using directories_listed by blast
next
  assume "should_skip_directory d'"
  then show "generate_tree_structure (Listed (xs @ Dir d' sub' # ys)) p b None
           = generate_tree_structure (Listed (xs @ ys)) p b None"
    by (rule gts_drop_skipped)
qed

theorem tree_lists_every_unskipped_descendant_witness:
  "\<not> should_include_file (str ''image.png'') (Some 2048)
   \<and> (\<exists>c \<in> {TREE_BRANCH, TREE_LAST}.
         c @ str ''image.png'' \<in> set (generate_tree_structure example_tree [] True None))
   \<and> list_all2 (renders [] 0)
         [TREE_BRANCH @ str ''locked/'',
          TREE_VERTICAL @ str ''[Permission Denied]'',
          TREE_BRANCH @ str ''src/'',
          TREE_VERTICAL @ TREE_LAST @ str ''main.py'',
          TREE_LAST @ str ''image.png'']
         (walk [] example_tree)
   \<and> should_skip_directory (str ''node_modules'')
   \<and> generate_tree_structure example_tree [] True None
       = generate_tree_structure (Listed
           [File (str ''image.png'') (Some 2048) (Inr [0x89, 0x50]),
            Dir (str ''src'') (Listed [File (str ''main.py'') (Some 8) (Inr [0x70, 0x72, 0x69, 0x6E, 0x74, 0x28, 0x31, 0x29])]),
            Dir (str ''locked'') (Failed (PermissionError (str ''[Errno 13] Permission denied'')))]) [] True None
   \<and> \<not> should_skip_directory (str ''src'')
   \<and> (\<exists>c \<in> {TREE_BRANCH, TREE_LAST}. \<exists>x \<in> {TREE_VERTICAL, TREE_SPACE}.
         c @ str ''src/'' \<in> set (generate_tree_structure example_tree [] True None)
         \<and> set (generate_tree_structure
                  (Listed [File (str ''main.py'') (Some 8) (Inr [0x70, 0x72, 0x69, 0x6E, 0x74, 0x28, 0x31, 0x29])])
                  x True None)
             \<subseteq> set (generate_tree_structure example_tree [] True None))"
proof -
  have keep: "\<not> should_skip_directory (str ''src'')"
    by (simp add: should_skip_directory_def SKIP_DIRECTORIES_def startswith_def str_def)
  have memd: "Dir (str ''src'') (Listed [File (str ''main.py'') (Some 8) (Inr [0x70, 0x72, 0x69, 0x6E, 0x74, 0x28, 0x31, 0x29])])
      \<in> set ([File (str ''image.png'') (Some 2048) (Inr [0x89, 0x50])]
        @ Dir (str ''node_modules'') (Listed [File (str ''x.js'') (Some 1) (Inr [0x78])])
        # [Dir (str ''src'') (Listed [File (str ''main.py'') (Some 8) (Inr [0x70, 0x72, 0x69, 0x6E, 0x74, 0x28, 0x31, 0x29])]),
           Dir (str ''locked'') (Failed (PermissionError (str ''[Errno 13] Permission denied'')))])"
    by simp
  have inc: "\<not> should_include_file (str ''image.png'') (Some 2048)"
    by (simp add: should_include_file_def suffix_def rfind_def lower_def lower_cp_def str_def
          BINARY_EXTENSIONS_def)
  have skip: "should_skip_directory (str ''node_modules'')"
    by (simp add: should_skip_directory_def SKIP_DIRECTORIES_def)
  have mem: "File (str ''image.png'') (Some 2048) (Inr [0x89, 0x50])
      \<in> set ([File (str ''image.png'') (Some 2048) (Inr [0x89, 0x50])]
        @ Dir (str ''node_modules'') (Listed [File (str ''x.js'') (Some 1) (Inr [0x78])])
        # [Dir (str ''src'') (Listed [File (str ''main.py'') (Some 8) (Inr [0x70, 0x72, 0x69, 0x6E, 0x74, 0x28, 0x31, 0x29])]),
           Dir (str ''locked'') (Failed (PermissionError (str ''[Errno 13] Permission denied'')))])"
    by simp
  have tree: "example_tree = Listed ([File (str ''image.png'') (Some 2048) (Inr [0x89, 0x50])]
        @ Dir (str ''node_modules'') (Listed [File (str ''x.js'') (Some 1) (Inr [0x78])])
        # [Dir (str ''src'') (Listed [File (str ''main.py'') (Some 8) (Inr [0x70, 0x72, 0x69, 0x6E, 0x74, 0x28, 0x31, 0x29])]),
           Dir (str ''locked'') (Failed (PermissionError (str ''[Errno 13] Permission denied'')))])"
    by (simp add: example_tree_def)
  note inst = tree_lists_every_unskipped_descendant
      [of "[]" example_tree True "[]"
          "[File (str ''image.png'') (Some 2048) (Inr [0x89, 0x50])]
        @ Dir (str ''node_modules'') (Listed [File (str ''x.js'') (Some 1) (Inr [0x78])])
        # [Dir (str ''src'') (Listed [File (str ''main.py'') (Some 8) (Inr [0x70, 0x72, 0x69, 0x6E, 0x74, 0x28, 0x31, 0x29])]),
           Dir (str ''locked'') (Failed (PermissionError (str ''[Errno 13] Permission denied'')))]"
          "str ''node_modules''"
          "[File (str ''image.png'') (Some 2048) (Inr [0x89, 0x50])]"
          "Listed [File (str ''x.js'') (Some 1) (Inr [0x78])]"
          "[Dir (str ''src'') (Listed [File (str ''main.py'') (Some 8) (Inr [0x70, 0x72, 0x69, 0x6E, 0x74, 0x28, 0x31, 0x29])]),
           Dir (str ''locked'') (Failed (PermissionError (str ''[Errno 13] Permission denied'')))]",
       folded tree]
  from inst have rows: "list_all2 (renders [] 0) (generate_tree_structure example_tree [] True None)
      (walk [] example_tree)"
    by (rule conjunct1)
  from inst mem have line: "\<exists>c \<in> {TREE_BRANCH, TREE_LAST}.
         [] @ c @ name (File (str ''image.png'') (Some 2048) (Inr [0x89, 0x50]))
           \<in> set (generate_tree_structure example_tree [] True None)"
    by (elim conjE) (drule bspec [OF _ mem], simp)
  from inst have "should_skip_directory (str ''node_modules'') \<longrightarrow>
       generate_tree_structure example_tree [] True None
       = generate_tree_structure (Listed ([File (str ''image.png'') (Some 2048) (Inr [0x89, 0x50])]
           @ [Dir (str ''src'') (Listed [File (str ''main.py'') (Some 8) (Inr [0x70, 0x72, 0x69, 0x6E, 0x74, 0x28, 0x31, 0x29])]),
              Dir (str ''locked'') (Failed (PermissionError (str ''[Errno 13] Permission denied'')))])) [] True None"
    by (elim conjE)
  with skip have drop: "generate_tree_structure example_tree [] True None
       = generate_tree_structure (Listed ([File (str ''image.png'') (Some 2048) (Inr [0x89, 0x50])]
           @ [Dir (str ''src'') (Listed [File (str ''main.py'') (Some 8) (Inr [0x70, 0x72, 0x69, 0x6E, 0x74, 0x28, 0x31, 0x29])]),
              Dir (str ''locked'') (Failed (PermissionError (str ''[Errno 13] Permission denied'')))])) [] True None"
    by (rule rev_mp)
  from inst have "\<exists>c \<in> {TREE_BRANCH, TREE_LAST}. \<exists>x \<in> {TREE_VERTICAL, TREE_SPACE}.
         [] @ c @ str ''src'' @ str ''/'' \<in> set (generate_tree_structure example_tree [] True None)
         \<and> set (generate_tree_structure
                  (Listed [File (str ''main.py'') (Some 8) (Inr [0x70, 0x72, 0x69, 0x6E, 0x74, 0x28, 0x31, 0x29])])
                  ([] @ x) True None)
             \<subseteq> set (generate_tree_structure example_tree [] True None)"
    by (elim conjE) (erule allE, erule allE, erule impE, rule conjI [OF memd keep], assumption)
  then have dirs: "\<exists>c \<in> {TREE_BRANCH, TREE_LAST}. \<exists>x \<in> {TREE_VERTICAL, TREE_SPACE}.
         c @ str ''src/'' \<in> set (generate_tree_structure example_tree [] True None)
         \<and> set (generate_tree_structure
                  (Listed [File (str ''main.py'') (Some 8) (Inr [0x70, 0x72, 0x69, 0x6E, 0x74, 0x28, 0x31, 0x29])])
                  x True None)
             \<subseteq> set (generate_tree_structure example_tree [] True None)"
    by (simp add: str_def)
  have first: "\<not> should_include_file (str ''image.png'') (Some 2048)
   \<and> (\<exists>c \<in> {TREE_BRANCH, TREE_LAST}.
         c @ str ''image.png'' \<in> set (generate_tree_structure example_tree [] True None))
   \<and> list_all2 (renders [] 0)
         [TREE_BRANCH @ str ''locked/'',
          TREE_VERTICAL @ str ''[Permission Denied]'',
          TREE_BRANCH @ str ''src/'',
          TREE_VERTICAL @ TREE_LAST @ str ''main.py'',
          TREE_LAST @ str ''image.png'']
         (walk [] example_tree)
   \<and> should_skip_directory (str ''node_modules'')
   \<and> generate_tree_structure example_tree [] True None
       = generate_tree_structure (Listed
           [File (str ''image.png'') (Some 2048) (Inr [0x89, 0x50]),
            Dir (str ''src'') (Listed [File (str ''main.py'') (Some 8) (Inr [0x70, 0x72, 0x69, 0x6E, 0x74, 0x28, 0x31, 0x29])]),
            Dir (str ''locked'') (Failed (PermissionError (str ''[Errno 13] Permission denied'')))]) [] True None"
    using inc skip rows line drop unfolding example_tree_lines by simp
  from first keep dirs show ?thesis
    by (elim conjE) (intro conjI; assumption)
qed

text \<open>
  C6. \<open>should_skip_directory\<close> holds of a name iff it is in the skip list or begins
  with a dot. A skipped directory changes neither the tree nor the collected contents:
  both are what they would be were the directory absent, whatever it contains. The tree's
  lines and the collected entries are those of the rows of \<open>walk\<close>, and no row lies under
  a skipped directory or is one.
\<close>

theorem skipped_directories_never_entered:
  "(should_skip_directory d \<longleftrightarrow> d \<in> SKIP_DIRECTORIES \<or> (\<exists>r. d = 0x2E # r))
   \<and> (should_skip_directory d \<longrightarrow>
        generate_tree_structure (Listed (xs @ Dir d sub # ys)) p b ol
          = generate_tree_structure (Listed (xs @ ys)) p b ol
        \<and> collect_file_contents (Listed (xs @ Dir d sub # ys)) rel
          = collect_file_contents (Listed (xs @ ys)) rel)
   \<and> list_all2 (renders p 0) (generate_tree_structure l p b None) (walk [] l)
   \<and> collect_file_contents l [] = concat (map collected (walk [] l))
   \<and> (\<forall>r \<in> set (walk [] l).
         (\<forall>a \<in> set (ancestors r). \<not> should_skip_directory a)
         \<and> (\<forall>q item. r = Entry q item \<and> is_dir item \<longrightarrow> \<not> should_skip_directory (name item)))"
proof (intro conjI impI ballI)
  show "should_skip_directory d \<longleftrightarrow> d \<in> SKIP_DIRECTORIES \<or> (\<exists>r. d = 0x2E # r)"
    by (simp add: should_skip_directory_def startswith_dot)
next
  assume "should_skip_directory d"
  then show "generate_tree_structure (Listed (xs @ Dir d sub # ys)) p b ol
          = generate_tree_structure (Listed (xs @ ys)) p b ol"
    by (rule gts_drop_skipped)
next
  assume "should_skip_directory d"
  then show "collect_file_contents (Listed (xs @ Dir d sub # ys)) rel
          = collect_file_contents (Listed (xs @ ys)) rel"
    by (rule collect_drop_skipped)
next
  show "list_all2 (renders p 0) (generate_tree_structure l p b None) (walk [] l)"
    using tree_walk [of p "[]" l b] by simp
next
  show "collect_file_contents l [] = concat (map collected (walk [] l))"
    by (rule collect_walk)
next
  fix r a assume "r \<in> set (walk [] l)" "a \<in> set (ancestors r)"
  then show "\<not> should_skip_directory a"
    using walk_row_ok [of r l] by (simp add: row_ok_def)
next
  fix r assume r: "r \<in> set (walk [] l)"
  show "\<forall>q item. r = Entry q item \<and> is_dir item \<longrightarrow> \<not> should_skip_directory (name item)"
    using walk_row_ok [OF r] by (auto simp: row_ok_def visible_def)
qed

theorem skipped_directories_never_entered_witness:
  "should_skip_directory (str ''node_modules'') \<and> should_skip_directory (str ''.cache'')
   \<and> \<not> should_skip_directory (str ''src'')
   \<and> generate_tree_structure example_tree [] True None
       = generate_tree_structure (Listed
           [File (str ''image.png'') (Some 2048) (Inr [0x89, 0x50]),
            Dir (str ''src'') (Listed [File (str ''main.py'') (Some 8) (Inr [0x70, 0x72, 0x69, 0x6E, 0x74, 0x28, 0x31, 0x29])]),
            Dir (str ''locked'') (Failed (PermissionError (str ''[Errno 13] Permission denied'')))]) [] True None
   \<and> collect_file_contents example_tree []
       = collect_file_contents (Listed
           [File (str ''image.png'') (Some 2048) (Inr [0x89, 0x50]),
            Dir (str ''src'') (Listed [File (str ''main.py'') (Some 8) (Inr [0x70, 0x72, 0x69, 0x6E, 0x74, 0x28, 0x31, 0x29])]),
            Dir (str ''locked'') (Failed (PermissionError (str ''[Errno 13] Permission denied'')))]) []"
proof -
  have skip: "should_skip_directory (str ''node_modules'')" "should_skip_directory (str ''.cache'')"
       "\<not> should_skip_directory (str ''src'')"
    by (simp_all add: should_skip_directory_def SKIP_DIRECTORIES_def startswith_def str_def)
  note inst = skipped_directories_never_entered
      [of "str ''node_modules''"
          "[File (str ''image.png'') (Some 2048) (Inr [0x89, 0x50])]"
          "Listed [File (str ''x.js'') (Some 1) (Inr [0x78])]"
          "[Dir (str ''src'') (Listed [File (str ''main.py'') (Some 8) (Inr [0x70, 0x72, 0x69, 0x6E, 0x74, 0x28, 0x31, 0x29])]),
            Dir (str ''locked'') (Failed (PermissionError (str ''[Errno 13] Permission denied'')))]"
          "[]" True None "[]" example_tree]
  from inst skip(1) have
    "generate_tree_structure (Listed ([File (str ''image.png'') (Some 2048) (Inr [0x89, 0x50])]
        @ Dir (str ''node_modules'') (Listed [File (str ''x.js'') (Some 1) (Inr [0x78])])
        # [Dir (str ''src'') (Listed [File (str ''main.py'') (Some 8) (Inr [0x70, 0x72, 0x69, 0x6E, 0x74, 0x28, 0x31, 0x29])]),
            Dir (str ''locked'') (Failed (PermissionError (str ''[Errno 13] Permission denied'')))])) [] True None
     = generate_tree_structure (Listed ([File (str ''image.png'') (Some 2048) (Inr [0x89, 0x50])]
        @ [Dir (str ''src'') (Listed [File (str ''main.py'') (Some 8) (Inr [0x70, 0x72, 0x69, 0x6E, 0x74, 0x28, 0x31, 0x29])]),
            Dir (str ''locked'') (Failed (PermissionError (str ''[Errno 13] Permission denied'')))])) [] True None"
    "collect_file_contents (Listed ([File (str ''image.png'') (Some 2048) (Inr [0x89, 0x50])]
        @ Dir (str ''node_modules'') (Listed [File (str ''x.js'') (Some 1) (Inr [0x78])])
        # [Dir (str ''src'') (Listed [File (str ''main.py'') (Some 8) (Inr [0x70, 0x72, 0x69, 0x6E, 0x74, 0x28, 0x31, 0x29])]),
            Dir (str ''locked'') (Failed (PermissionError (str ''[Errno 13] Permission denied'')))])) []
     = collect_file_contents (Listed ([File (str ''image.png'') (Some 2048) (Inr [0x89, 0x50])]
        @ [Dir (str ''src'') (Listed [File (str ''main.py'') (Some 8) (Inr [0x70, 0x72, 0x69, 0x6E, 0x74, 0x28, 0x31, 0x29])]),
            Dir (str ''locked'') (Failed (PermissionError (str ''[Errno 13] Permission denied'')))])) []"
    by blast+
  then show ?thesis
    using skip unfolding example_tree_def by simp
qed

lemma join_Cons:
  "join sep (p # ps) = (if ps = [] then p else p @ sep @ join sep ps)"
  by (cases ps) simp_all

lemma str_path_Cons:
  "str_path (p # ps) = (if ps = [] then p else p @ 0x2F # str_path ps)"
  by (simp add: str_path_def join_Cons str_def)

lemma takeWhile_segment:
  assumes "0x2F \<notin> set p"
  shows "takeWhile (\<lambda>c. c \<noteq> 0x2F) (str_path (p # ps)) = p"
    and "dropWhile (\<lambda>c. c \<noteq> 0x2F) (str_path (p # ps)) = (if ps = [] then [] else 0x2F # str_path ps)"
proof -
  have all: "\<forall>c \<in> set p. c \<noteq> 0x2F"
    using assms by auto
  show "takeWhile (\<lambda>c. c \<noteq> 0x2F) (str_path (p # ps)) = p"
    using all by (simp add: str_path_Cons takeWhile_tail)
  show "dropWhile (\<lambda>c. c \<noteq> 0x2F) (str_path (p # ps)) = (if ps = [] then [] else 0x2F # str_path ps)"
    using all by (simp add: str_path_Cons dropWhile_append3)
qed

lemma str_path_inj:
  assumes "str_path ps = str_path qs" and "ps \<noteq> []" and "qs \<noteq> []"
    and "\<forall>p \<in> set ps. 0x2F \<notin> set p" and "\<forall>q \<in> set qs. 0x2F \<notin> set q"
  shows "ps = qs"
  using assms
proof (induction ps arbitrary: qs)
  case Nil
  then show ?case by simp
next
  case (Cons p ps)
  then obtain q qs' where qs: "qs = q # qs'"
    by (cases qs) auto
  have p: "0x2F \<notin> set p" and q: "0x2F \<notin> set q"
    using Cons.prems qs by simp_all
  have eq: "str_path (p # ps) = str_path (q # qs')"
    using Cons.prems(1) qs by simp
  have "takeWhile (\<lambda>c. c \<noteq> 0x2F) (str_path (p # ps)) = takeWhile (\<lambda>c. c \<noteq> 0x2F) (str_path (q # qs'))"
    by (simp only: eq)
  then have pq: "p = q"
    by (simp only: takeWhile_segment(1) [OF p] takeWhile_segment(1) [OF q])
  have "dropWhile (\<lambda>c. c \<noteq> 0x2F) (str_path (p # ps)) = dropWhile (\<lambda>c. c \<noteq> 0x2F) (str_path (q # qs'))"
    by (simp only: eq)
  then have tl: "(if ps = [] then [] else 0x2F # str_path ps) = (if qs' = [] then [] else 0x2F # str_path qs')"
    by (simp only: takeWhile_segment(2) [OF p] takeWhile_segment(2) [OF q])
  show ?case
  proof (cases "ps = []")
    case True
    then have "qs' = []"
      using tl by (auto split: if_splits)
    then show ?thesis
      using True pq qs by simp
  next
    case False
    then have ne: "qs' \<noteq> []" and eq': "str_path ps = str_path qs'"
      using tl by (auto split: if_splits)
    have "ps = qs'"
      using Cons.IH [OF eq' False ne] Cons.prems qs by simp
    then show ?thesis
      using pq qs by simp
  qed
qed

lemma item_key_le:
  "item_key a \<le> item_key b \<Longrightarrow>
   (is_dir b \<longrightarrow> is_dir a) \<and> (is_dir a = is_dir b \<longrightarrow> lower (name a) \<le> lower (name b))"
  by (auto simp: item_key_def less_eq_prod_def)

lemma sorted_items_order:
  "sorted_wrt (\<lambda>a b. (is_dir b \<longrightarrow> is_dir a) \<and> (is_dir a = is_dir b \<longrightarrow> lower (name a) \<le> lower (name b)))
     (sorted_items es)"
proof -
  have "sorted (map item_key (sorted_items es))"
    by (simp add: sorted_items_def)
  then have "sorted_wrt (\<lambda>a b. item_key a \<le> item_key b) (sorted_items es)"
    by (simp add: sorted_map)
  then show ?thesis
    by (rule sorted_wrt_mono_rel [rotated]) (rule item_key_le)
qed

lemma mset_sorted_items: "mset (sorted_items es) = mset es"
  by (simp add: sorted_items_def)

lemma collected_included:
  "collected r = (if included r then [(str_path (path_of r), snd (hd (collected r)))] else [])"
  by (cases r rule: collected.cases) simp_all

lemma map_fst_collected:
  "map fst (concat (map collected rows)) = map (str_path \<circ> path_of) (filter included rows)"
proof (induction rows)
  case Nil
  show ?case by simp
next
  case (Cons r rows)
  have "map fst (collected r) = (if included r then [str_path (path_of r)] else [])"
    by (cases r rule: collected.cases) simp_all
  then show ?case
    using Cons by simp
qed

lemma collected_from_file:
  assumes "(p, c) \<in> set (concat (map collected rows))"
  shows "\<exists>path f st data. Entry path (File f st data) \<in> set rows \<and> p = str_path path
           \<and> c = read_file_content data \<and> should_include_file f st"
proof -
  from assms obtain r where r: "r \<in> set rows" "(p, c) \<in> set (collected r)"
    by auto
  then show ?thesis
    by (cases r rule: collected.cases) (auto split: if_splits)
qed

lemma included_is_entry: "included r \<Longrightarrow> is_entry r"
  by (cases r rule: included.cases) simp_all

lemma filter_included: "filter included rows = filter included (filter is_entry rows)"
  by (induction rows) (auto simp: included_is_entry)

lemma wf_visible_items:
  assumes "wf_listing (Listed es)"
  shows "distinct (map name (filter visible (sorted_items es)))"
    and "list_all wf_entry (filter visible (sorted_items es))"
proof -
  have "distinct (map name (sorted_items es)) = distinct (map name es)"
    by (rule mset_eq_imp_distinct_iff) (simp add: mset_sorted_items)
  then have "distinct (map name (sorted_items es))"
    using assms by simp
  then show "distinct (map name (filter visible (sorted_items es)))"
    by (rule distinct_map_filter)
  show "list_all wf_entry (filter visible (sorted_items es))"
    using assms by (simp add: list_all_iff sorted_items_def)
qed

lemma entry_paths_simps [simp]:
  "entry_paths [] = []"
  "entry_paths (Entry q item # rows) = q # entry_paths rows"
  "entry_paths (Marker q e # rows) = entry_paths rows"
  "entry_paths (rows @ rows') = entry_paths rows @ entry_paths rows'"
  by (simp_all add: entry_paths_def)

lemma entry_paths_prepend: "entry_paths (map (prepend q) rows) = map ((@) q) (entry_paths rows)"
proof (induction rows)
  case Nil
  show ?case by simp
next
  case (Cons r rows)
  then show ?case by (cases r) simp_all
qed

lemma paths_ok_sub:
  assumes "paths_ok ps" and "0x2F \<notin> set d"
  shows "paths_ok (map ((@) [d]) ps)"
    and "\<forall>q \<in> set (map ((@) [d]) ps). hd q = d \<and> q \<noteq> [d]"
proof -
  have "distinct (map ((@) [d]) ps)"
    using assms(1) by (simp add: paths_ok_def distinct_map inj_on_def)
  then show "paths_ok (map ((@) [d]) ps)"
    using assms by (auto simp: paths_ok_def)
  show "\<forall>q \<in> set (map ((@) [d]) ps). hd q = d \<and> q \<noteq> [d]"
    using assms(1) by (auto simp: paths_ok_def)
qed

lemma paths_ok_Cons:
  assumes own: "0x2F \<notin> set n"
    and sub: "paths_ok S" "\<forall>q \<in> set S. hd q = n \<and> q \<noteq> [n]"
    and rest: "paths_ok R" "\<forall>q \<in> set R. hd q \<in> N" and fresh: "n \<notin> N"
  shows "paths_ok ([n] # S @ R)"
    and "\<forall>q \<in> set ([n] # S @ R). hd q \<in> insert n N"
proof -
  have "[n] \<notin> set S"
    using sub(2) by blast
  moreover have "[n] \<notin> set R"
    using rest(2) fresh by force
  moreover have "set S \<inter> set R = {}"
    using sub(2) rest(2) fresh by force
  ultimately have "distinct ([n] # S @ R)"
    using sub(1) rest(1) by (simp add: paths_ok_def)
  then show "paths_ok ([n] # S @ R)"
    using own sub(1) rest(1) by (auto simp: paths_ok_def)
  show "\<forall>q \<in> set ([n] # S @ R). hd q \<in> insert n N"
    using sub(2) rest(2) by auto
qed

lemma wf_entry_name: "wf_entry item \<Longrightarrow> 0x2F \<notin> set (name item)"
  by (cases item) simp_all

lemma walk_paths_aux:
  fixes path path' :: "pystr list"
  shows "wf_listing l \<longrightarrow> paths_ok (entry_paths (walk [] l))"
    and "distinct (map name items) \<and> list_all wf_entry items \<longrightarrow>
           paths_ok (entry_paths (walk_items [] items))
           \<and> (\<forall>q \<in> set (entry_paths (walk_items [] items)). hd q \<in> name ` set items)"
proof (induct path l and path' items rule: walk_walk_items.induct)
  case (1 path e)
  show ?case by (simp add: paths_ok_def)
next
  case (2 path es)
  show ?case
  proof
    assume "wf_listing (Listed es)"
    then have "distinct (map name (filter visible (sorted_items es)))"
      "list_all wf_entry (filter visible (sorted_items es))"
      by (rule wf_visible_items)+
    then show "paths_ok (entry_paths (walk [] (Listed es)))"
      using 2 by simp
  qed
next
  case (3 path)
  show ?case by (simp add: paths_ok_def)
next
  case (4 path item rest)
  show ?case
  proof
    assume a: "distinct (map name (item # rest)) \<and> list_all wf_entry (item # rest)"
    then have fresh: "name item \<notin> name ` set rest" and wf: "wf_entry item"
      and "distinct (map name rest) \<and> list_all wf_entry rest"
      by simp_all
    then have rest: "paths_ok (entry_paths (walk_items [] rest))"
        "\<forall>q \<in> set (entry_paths (walk_items [] rest)). hd q \<in> name ` set rest"
      using 4(2) by simp_all
    have own: "0x2F \<notin> set (name item)"
      using wf by (rule wf_entry_name)
    define S where "S = entry_paths (case item of Dir d sub \<Rightarrow> walk [d] sub | _ \<Rightarrow> [])"
    have sub: "paths_ok S \<and> (\<forall>q \<in> set S. hd q = name item \<and> q \<noteq> [name item])"
    proof (cases item)
      case (Dir d sub)
      have "wf_listing sub"
        using wf Dir by simp
      then have ok: "paths_ok (entry_paths (walk [] sub))"
        using 4(1) [OF Dir] by simp
      have S: "S = map ((@) [d]) (entry_paths (walk [] sub))"
        unfolding S_def Dir entry.case walk_shift [of "[d]" sub] by (rule entry_paths_prepend)
      have d: "0x2F \<notin> set d"
        using own Dir by simp
      show ?thesis
        unfolding S using paths_ok_sub [OF ok d] Dir by simp
    qed (simp_all add: S_def paths_ok_def)
    have eq: "entry_paths (walk_items [] (item # rest)) = [name item] # S @ entry_paths (walk_items [] rest)"
      by (cases item) (simp_all add: S_def)
    show "paths_ok (entry_paths (walk_items [] (item # rest)))
           \<and> (\<forall>q \<in> set (entry_paths (walk_items [] (item # rest))). hd q \<in> name ` set (item # rest))"
      unfolding eq
      using paths_ok_Cons [OF own conjunct1 [OF sub] conjunct2 [OF sub] rest fresh]
      by simp
  qed
qed

lemma walk_paths_ok: "wf_listing l \<Longrightarrow> paths_ok (entry_paths (walk [] l))"
  using walk_paths_aux(1) by blast

lemma collect_paths_distinct:
  assumes "wf_listing l"
  shows "distinct (map fst (collect_file_contents l []))"
proof -
  let ?rows = "walk [] l"
  let ?ps = "map path_of (filter included ?rows)"
  have ok: "paths_ok (entry_paths ?rows)"
    using assms by (rule walk_paths_ok)
  have ps: "?ps = map path_of (filter included (filter is_entry ?rows))"
    by (subst filter_included) (rule refl)
  have "distinct (map path_of (filter is_entry ?rows))"
    using ok by (simp add: paths_ok_def entry_paths_def)
  then have d: "distinct ?ps"
    unfolding ps by (rule distinct_map_filter)
  have sub: "set ?ps \<subseteq> set (entry_paths ?rows)"
    unfolding ps entry_paths_def by auto
  have inj: "inj_on str_path (set ?ps)"
  proof (rule inj_onI)
    fix a b assume ab: "a \<in> set ?ps" "b \<in> set ?ps" "str_path a = str_path b"
    then have "a \<in> set (entry_paths ?rows)" "b \<in> set (entry_paths ?rows)"
      using sub by blast+
    then have "a \<noteq> []" "b \<noteq> []" "\<forall>p \<in> set a. 0x2F \<notin> set p" "\<forall>p \<in> set b. 0x2F \<notin> set p"
      using ok by (simp_all add: paths_ok_def)
    with ab(3) show "a = b"
      by (rule str_path_inj)
  qed
  have "map fst (collect_file_contents l []) = map str_path ?ps"
    by (simp add: collect_walk map_fst_collected)
  moreover have "distinct (map str_path ?ps)"
    using d inj by (subst distinct_map) (rule conjI)
  ultimately show ?thesis
    by (simp only:)
qed

lemma example_siblings_sorted:
  "map name (sorted_items example_siblings) = [str ''A'', str ''a.txt'', str ''b.txt'']"
  by (simp add: example_siblings_def sorted_items_def item_key_def lower_def lower_cp_def str_def)

lemma example_tree_wf: "wf_listing example_tree"
  by (simp add: example_tree_def str_def)

lemma tree_loop_concat:
  "tree_loop p n i items [] = concat (map (\<lambda>(j, item). item_lines p n j item) (enumerate i items))"
proof (induction items arbitrary: i)
  case Nil
  show ?case by (simp add: tree_loop_Nil)
next
  case (Cons item rest)
  have "tree_loop p n i (item # rest) [] = item_lines p n i item @ tree_loop p n (Suc i) rest []"
    unfolding tree_loop_Cons [of p n i item rest "[]" "int i = int n - 1"] item_lines_def
    by simp
  then show ?case
    by (simp add: Cons.IH)
qed

lemma gts_Listed_concat:
  "generate_tree_structure (Listed es) p b None =
     concat (map (\<lambda>(i, item). item_lines p (length (filter visible (sorted_items es))) i item)
               (enumerate 0 (filter visible (sorted_items es))))"
  by (simp add: gts_Listed tree_loop_concat)

lemma collect_Listed_concat:
  "collect_file_contents (Listed es) rel = concat (map (item_contents rel) (sorted_items es))"
  by (simp add: collect_Listed collect_loop_concat)

lemma example_mixed_case_sorted:
  "map name (sorted_items example_mixed_case)
     = [str ''api'', str ''Docs'', str ''lib'', str ''a.py'', str ''b.py'', str ''C.py'']"
  by (simp add: example_mixed_case_def sorted_items_def item_key_def lower_def lower_cp_def str_def)

lemma example_mixed_case_lines:
  "generate_tree_structure (Listed example_mixed_case) [] True None =
     [TREE_BRANCH @ str ''api/'',
      TREE_BRANCH @ str ''Docs/'',
      TREE_VERTICAL @ TREE_LAST @ str ''README.md'',
      TREE_BRANCH @ str ''lib/'',
      TREE_VERTICAL @ TREE_BRANCH @ str ''y.py'',
      TREE_VERTICAL @ TREE_LAST @ str ''Z.py'',
      TREE_BRANCH @ str ''a.py'',
      TREE_BRANCH @ str ''b.py'',
      TREE_LAST @ str ''C.py'']"
  by (simp add: example_mixed_case_def gts_Listed gts_Failed tree_loop_Nil tree_loop_Dir tree_loop_File
        connector_of_def extension_of_def marker_line_def visible_def should_skip_directory_def
        startswith_def SKIP_DIRECTORIES_def str_def sorted_items_def item_key_def lower_def lower_cp_def)

lemma example_mixed_case_contents:
  "collect_file_contents (Listed example_mixed_case) [] =
     [(str ''Docs/README.md'', [0x30]),
      (str ''lib/y.py'', [0x34]),
      (str ''lib/Z.py'', [0x35]),
      (str ''a.py'', [0x31]),
      (str ''b.py'', [0x32]),
      (str ''C.py'', [0x33])]"
  by (simp add: example_mixed_case_def collect_Listed collect_loop_step collect_loop_Nil collect_Failed
        item_contents_def visible_def should_skip_directory_def
        startswith_def SKIP_DIRECTORIES_def str_def sorted_items_def item_key_def lower_def lower_cp_def
        should_include_file_def suffix_def rfind_def BINARY_EXTENSIONS_def TEXT_EXTENSIONS_def
        CONVENTIONAL_NAMES_def str_path_def read_file_content_def encodings_def open_read_def
        sanitize_xml_content_def in_removed_class_def)

lemma example_mixed_case_ok:
  "latin1_names (Listed example_mixed_case)" "wf_listing (Listed example_mixed_case)"
  "latin1_names (Listed example_siblings)"
  by (simp_all add: example_mixed_case_def example_siblings_def str_def)

text \<open>
  C5. \<open>sorted_items\<close> puts the entries of a directory in an order in which no directory
  follows a file and, among directories and among files, lower-cased names ascend
  (lexicographically by code point); it is a permutation of the listing. The Tree
  Builder's output for a directory is the concatenation, in that order, of what each
  entry that is not a skipped directory contributes: its line, then its own tree. The
  Content Collector's output is the concatenation, in that order, of what each entry
  contributes: the pair of an included file, the collected contents of a directory.
  Over the whole tree both outputs follow the rows of \<open>walk\<close>. Every pair the Collector
  returns comes from a file of the traversal that \<open>should_include_file\<close> accepts, with
  its relative path and the Reader's content. When sibling names are distinct and
  contain no slash, as on any filesystem, no relative path occurs twice in the
  Collector's result, so no pair does. The names are taken in Latin-1, where \<open>lower\<close> is
  Python's \<open>str.lower()\<close>.
\<close>

theorem traversal_order_and_collected_entries:
  assumes "latin1_names (Listed es)"
  shows "sorted_wrt (\<lambda>a b. (is_dir b \<longrightarrow> is_dir a) \<and> (is_dir a = is_dir b \<longrightarrow> lower (name a) \<le> lower (name b)))
       (sorted_items es)
     \<and> mset (sorted_items es) = mset es
     \<and> generate_tree_structure (Listed es) p b None =
         concat (map (\<lambda>(i, item). item_lines p (length (filter visible (sorted_items es))) i item)
                   (enumerate 0 (filter visible (sorted_items es))))
     \<and> collect_file_contents (Listed es) rel = concat (map (item_contents rel) (sorted_items es))
     \<and> walk path (Listed es) =
         concat (map (\<lambda>item. Entry (path @ [name item]) item
                        # (case item of Dir d sub \<Rightarrow> walk (path @ [d]) sub | _ \<Rightarrow> []))
                   (filter visible (sorted_items es)))
     \<and> list_all2 (renders p 0) (generate_tree_structure (Listed es) p b None) (walk [] (Listed es))
     \<and> collect_file_contents (Listed es) [] = concat (map collected (walk [] (Listed es)))
     \<and> (\<forall>(rp, c) \<in> set (collect_file_contents (Listed es) []).
           \<exists>path f st data. Entry path (File f st data) \<in> set (walk [] (Listed es)) \<and> rp = str_path path
             \<and> c = read_file_content data \<and> should_include_file f st)
     \<and> (wf_listing (Listed es) \<longrightarrow>
           distinct (map fst (collect_file_contents (Listed es) []))
           \<and> distinct (collect_file_contents (Listed es) []))"
proof (intro conjI impI)
  show "sorted_wrt (\<lambda>a b. (is_dir b \<longrightarrow> is_dir a) \<and> (is_dir a = is_dir b \<longrightarrow> lower (name a) \<le> lower (name b)))
     (sorted_items es)"
    by (rule sorted_items_order)
  show "mset (sorted_items es) = mset es"
    by (rule mset_sorted_items)
  show "generate_tree_structure (Listed es) p b None =
         concat (map (\<lambda>(i, item). item_lines p (length (filter visible (sorted_items es))) i item)
                   (enumerate 0 (filter visible (sorted_items es))))"
    by (rule gts_Listed_concat)
  show "collect_file_contents (Listed es) rel = concat (map (item_contents rel) (sorted_items es))"
    by (rule collect_Listed_concat)
  show "walk path (Listed es) =
         concat (map (\<lambda>item. Entry (path @ [name item]) item
                        # (case item of Dir d sub \<Rightarrow> walk (path @ [d]) sub | _ \<Rightarrow> []))
                   (filter visible (sorted_items es)))"
    by (simp only: walk.simps walk_items_concat)
  show "list_all2 (renders p 0) (generate_tree_structure (Listed es) p b None) (walk [] (Listed es))"
    using tree_walk [of p "[]" "Listed es" b] by simp
  show "collect_file_contents (Listed es) [] = concat (map collected (walk [] (Listed es)))"
    by (rule collect_walk)
  show "\<forall>(rp, c) \<in> set (collect_file_contents (Listed es) []).
         \<exists>path f st data. Entry path (File f st data) \<in> set (walk [] (Listed es)) \<and> rp = str_path path
           \<and> c = read_file_content data \<and> should_include_file f st"
    unfolding collect_walk using collected_from_file by fast
next
  assume "wf_listing (Listed es)"
  then show d: "distinct (map fst (collect_file_contents (Listed es) []))"
    by (rule collect_paths_distinct)
  then show "distinct (collect_file_contents (Listed es) [])"
    by (simp add: distinct_map)
qed


theorem traversal_order_and_collected_entries_witness:
  "latin1_names (Listed example_siblings)
   \<and> map name (sorted_items example_siblings) = [str ''A'', str ''a.txt'', str ''b.txt'']
   \<and> latin1_names (Listed example_mixed_case) \<and> wf_listing (Listed example_mixed_case)
   \<and> map name (sorted_items example_mixed_case)
       = [str ''api'', str ''Docs'', str ''lib'', str ''a.py'', str ''b.py'', str ''C.py'']
   \<and> sorted_wrt (\<lambda>a b. (is_dir b \<longrightarrow> is_dir a) \<and> (is_dir a = is_dir b \<longrightarrow> lower (name a) \<le> lower (name b)))
       (sorted_items example_mixed_case)
   \<and> generate_tree_structure (Listed example_mixed_case) [] True None =
       [TREE_BRANCH @ str ''api/'',
        TREE_BRANCH @ str ''Docs/'',
        TREE_VERTICAL @ TREE_LAST @ str ''README.md'',
        TREE_BRANCH @ str ''lib/'',
        TREE_VERTICAL @ TREE_BRANCH @ str ''y.py'',
        TREE_VERTICAL @ TREE_LAST @ str ''Z.py'',
        TREE_BRANCH @ str ''a.py'',
        TREE_BRANCH @ str ''b.py'',
        TREE_LAST @ str ''C.py'']
   \<and> collect_file_contents (Listed example_mixed_case) [] =
       [(str ''Docs/README.md'', [0x30]),
        (str ''lib/y.py'', [0x34]),
        (str ''lib/Z.py'', [0x35]),
        (str ''a.py'', [0x31]),
        (str ''b.py'', [0x32]),
        (str ''C.py'', [0x33])]
   \<and> distinct (collect_file_contents (Listed example_mixed_case) [])"
proof -
  note inst = traversal_order_and_collected_entries
      [OF example_mixed_case_ok(1), of "[]" True "[]" "[]"]
  from inst have ordered:
    "sorted_wrt (\<lambda>a b. (is_dir b \<longrightarrow> is_dir a) \<and> (is_dir a = is_dir b \<longrightarrow> lower (name a) \<le> lower (name b)))
       (sorted_items example_mixed_case)"
    by (rule conjunct1)
  from inst have "wf_listing (Listed example_mixed_case) \<longrightarrow>
           distinct (map fst (collect_file_contents (Listed example_mixed_case) []))
           \<and> distinct (collect_file_contents (Listed example_mixed_case) [])"
    by (elim conjE)
  with example_mixed_case_ok(2)
  have "distinct (map fst (collect_file_contents (Listed example_mixed_case) []))
           \<and> distinct (collect_file_contents (Listed example_mixed_case) [])"
    by (rule rev_mp)
  then have no_repeat: "distinct (collect_file_contents (Listed example_mixed_case) [])"
    by (rule conjunct2)
  show ?thesis
    by (intro conjI example_mixed_case_ok example_siblings_sorted example_mixed_case_sorted
          ordered example_mixed_case_lines example_mixed_case_contents no_repeat)
qed

section \<open>Properties of the Exporters\<close>

declare str_of_nat.simps [simp del]










lemma pdf_export_stops_at_style_registration:
  "''Code'' \<in> set sample_styles \<Longrightarrow>
   generate_pdf_document sample_styles paragraph_refuses preformatted_refuses build_error
     current_dir current_dir_name root = Inl (already_defined ''Code'')"
  by (simp add: generate_pdf_document_def styles_add_def and_then_def)





end
